theory Spec2Isabelle
  imports Main
begin

section \<open>Values, exceptions and the outside world\<close>

text \<open>
  The script \<^verbatim>\<open>newsfeed_media_dl.py\<close> is embedded function by function. Python values
  that come out of \<^verbatim>\<open>json.loads\<close> are values of \<open>pyval\<close> (JSON floats are left out);
  a dictionary is an association list in insertion order. An exception is a value of
  \<open>pyexc\<close>, and a function that can raise returns \<open>pyexc + 'a\<close> with \<open>Inl\<close> for the
  exception. A point in time (a naive \<^verbatim>\<open>datetime\<close> with its microseconds at zero) is the
  number of seconds since 0001-01-01T00:00:00. A \<^verbatim>\<open>time.struct_time\<close> is given by the
  same count for the date and time its fields spell, and a POSIX timestamp is a number of
  whole seconds.
\<close>

type_synonym datetime = int

type_synonym struct_time = int

type_synonym timestamp = int

datatype pyval =
    PNone
  | PBool bool
  | PInt int
  | PStr string
  | PList "pyval list"
  | PDict "(pyval \<times> pyval) list"

datatype pyexc =
    InvalidInputDataException string "pyval list"
  | KeyError
  | TypeError
  | ValueError
  | IndexError
  | AttributeError
  | OSError
  | OverflowError
  | JSONDecodeError
  | UnicodeDecodeError
  | ReError
  | FeedparserError

text \<open>
  An attribute of a feed entry (a \<^verbatim>\<open>FeedParserDict\<close>) is there or not; reading one that
  is not there raises \<^verbatim>\<open>AttributeError\<close>. The two parsed dates hold a time or Python's
  \<^verbatim>\<open>None\<close> (feedparser stores \<^verbatim>\<open>None\<close> for a date it could not parse).
\<close>

datatype 'a attr = NoAttr | Attr 'a

record entry =
  link :: "string attr"
  title :: "string attr"
  published_parsed :: "struct_time option attr"
  updated_parsed :: "struct_time option attr"

text \<open>
  A compiled pattern is given by its match relation: \<open>p s i j\<close> holds when the pattern
  matches the slice \<open>s[i:j]\<close> of the subject \<open>s\<close>. \<^verbatim>\<open>re.match\<close> asks for a match that
  begins at position zero and ends anywhere.
\<close>

type_synonym pattern = "string \<Rightarrow> nat \<Rightarrow> nat \<Rightarrow> bool"

definition re_match :: "pattern \<Rightarrow> string \<Rightarrow> bool" where
  "re_match p s = list_ex (\<lambda>j. p s 0 j) [0..<Suc (length s)]"

datatype proc = Exited int | NotStarted

text \<open>
  A file that can be opened holds bytes that do not decode as text, text that is not JSON,
  or the text of a JSON value. \<^verbatim>\<open>os.chdir\<close> succeeds or raises \<^verbatim>\<open>OSError\<close>,
  \<^verbatim>\<open>TypeError\<close> (an argument that is no path) or \<^verbatim>\<open>ValueError\<close> (a path with a null
  byte in it).
\<close>

datatype contents = Undecodable | Garbage | JsonText pyval

datatype chdir_result = ChdirOk | ChdirOSError | ChdirTypeError | ChdirValueError

text \<open>
  What the script calls but does not define is a field of the environment: the clock, the
  file that holds the settings, \<^verbatim>\<open>os.chdir\<close>, \<^verbatim>\<open>int\<close> on a string, \<^verbatim>\<open>re.compile\<close>,
  \<^verbatim>\<open>datetime.strptime\<close> with the format \<^verbatim>\<open>%Y-%m-%dT%H:%M:%S\<close>, \<^verbatim>\<open>isoformat\<close>,
  \<^verbatim>\<open>time.mktime\<close>, \<^verbatim>\<open>datetime.fromtimestamp\<close>, \<^verbatim>\<open>feedparser.parse\<close> and
  \<^verbatim>\<open>subprocess.check_call\<close>. \<open>None\<close> stands for the exception the library raises; the
  two time conversions say which exception they raise, since it depends on the host
  (its time zone, the range of its C library).
\<close>

record env =
  now :: datetime
  read_file :: "string \<Rightarrow> contents option"
  chdir :: "pyval \<Rightarrow> chdir_result"
  int_str :: "string \<Rightarrow> int option"
  re_compile :: "string \<Rightarrow> pattern option"
  strptime :: "string \<Rightarrow> datetime option"
  isoformat :: "datetime \<Rightarrow> string"
  time_mktime :: "struct_time \<Rightarrow> pyexc + timestamp"
  fromtimestamp :: "timestamp \<Rightarrow> pyexc + datetime"
  feedparser_parse :: "pyval \<Rightarrow> entry list option"
  check_call :: "string \<Rightarrow> string \<Rightarrow> proc"

datatype level = Debug | Warning | Error

datatype event =
    Log level string "pyval list"
  | Chdir pyval
  | Extract pyval datetime
  | Exec pyval string
  | WriteFile pyval

text \<open>
  The state is the file \<^verbatim>\<open>.newsfeed_media_dl.json\<close> of the configured directory and the
  effects so far, oldest first. \<open>Extract url t\<close> records a call of \<^verbatim>\<open>extract_items\<close>, the
  one place where a feed is fetched; \<open>Exec d u\<close> records \<^verbatim>\<open>check_call([d, u])\<close>.
\<close>

record state =
  wm_file :: "contents option"
  trace :: "event list"

definition emit :: "event \<Rightarrow> state \<Rightarrow> state" where
  "emit ev st = st\<lparr>trace := trace st @ [ev]\<rparr>"

section \<open>Timestamp resolver\<close>

text \<open>
  \<open>local_datetime\<close> is \<^verbatim>\<open>datetime.fromtimestamp(time.mktime(x))\<close> on a parsed time:
  either call can raise, and the result need not spell the fields of \<open>x\<close> again.
  \<open>entry_time\<close> reads the attribute first: \<^verbatim>\<open>AttributeError\<close> when it is not there,
  and \<^verbatim>\<open>time.mktime(None)\<close> raises \<^verbatim>\<open>TypeError\<close>. The \<^verbatim>\<open>try\<close> of
  \<^verbatim>\<open>get_entry_datetime\<close> spans the whole expression.
\<close>

definition local_datetime :: "env \<Rightarrow> struct_time \<Rightarrow> pyexc + datetime" where
  "local_datetime env x =
     (case time_mktime env x of Inl err \<Rightarrow> Inl err | Inr ts \<Rightarrow> fromtimestamp env ts)"

fun entry_time :: "env \<Rightarrow> struct_time option attr \<Rightarrow> pyexc + datetime" where
  "entry_time env NoAttr = Inl AttributeError"
| "entry_time env (Attr None) = Inl TypeError"
| "entry_time env (Attr (Some x)) = local_datetime env x"

definition get_entry_datetime :: "env \<Rightarrow> entry \<Rightarrow> pyexc + datetime" where
  "get_entry_datetime env e =
     (case entry_time env (published_parsed e) of
        Inl x \<Rightarrow> (if x = AttributeError then entry_time env (updated_parsed e) else Inl x)
      | Inr etime \<Rightarrow> Inr etime)"

section \<open>Feed filter\<close>

text \<open>
  The list comprehension of \<^verbatim>\<open>extract_items\<close> visits the entries in feed order; the
  \<^verbatim>\<open>and\<close> reads the title only of an entry that is new enough, and the link only of an
  entry that passes both tests. The first exception ends the whole comprehension.
\<close>

fun vurls_of :: "env \<Rightarrow> pattern \<Rightarrow> datetime \<Rightarrow> entry list \<Rightarrow> pyexc + string list" where
  "vurls_of env regex newer_than [] = Inr []"
| "vurls_of env regex newer_than (e # es) =
     (case get_entry_datetime env e of
        Inl x \<Rightarrow> Inl x
      | Inr t \<Rightarrow>
          if newer_than < t then
            (case title e of
               NoAttr \<Rightarrow> Inl AttributeError
             | Attr s \<Rightarrow>
                 if re_match regex s then
                   (case link e of
                      NoAttr \<Rightarrow> Inl AttributeError
                    | Attr l \<Rightarrow>
                        (case vurls_of env regex newer_than es of
                           Inl x \<Rightarrow> Inl x
                         | Inr ls \<Rightarrow> Inr (l # ls)))
                 else vurls_of env regex newer_than es)
          else vurls_of env regex newer_than es)"

fun entry_datetimes :: "env \<Rightarrow> entry list \<Rightarrow> pyexc + datetime list" where
  "entry_datetimes env [] = Inr []"
| "entry_datetimes env (e # es) =
     (case get_entry_datetime env e of
        Inl x \<Rightarrow> Inl x
      | Inr t \<Rightarrow>
          (case entry_datetimes env es of Inl x \<Rightarrow> Inl x | Inr ts \<Rightarrow> Inr (t # ts)))"

text \<open>\<^verbatim>\<open>max\<close> of a generator: \<^verbatim>\<open>ValueError\<close> when it yields nothing.\<close>

definition newest_of :: "env \<Rightarrow> entry list \<Rightarrow> pyexc + datetime" where
  "newest_of env es =
     (case entry_datetimes env es of
        Inl x \<Rightarrow> Inl x
      | Inr [] \<Rightarrow> Inl ValueError
      | Inr (t # ts) \<Rightarrow> Inr (fold max ts t))"

definition extract_items ::
  "env \<Rightarrow> pyval \<Rightarrow> pattern \<Rightarrow> datetime \<Rightarrow> state \<Rightarrow> (pyexc + string list \<times> datetime) \<times> state" where
  "extract_items env url regex newer_than st =
     (let st1 = emit (Extract url newer_than) st in
      case feedparser_parse env url of
        None \<Rightarrow> (Inl FeedparserError, st1)
      | Some entries \<Rightarrow>
          (case vurls_of env regex newer_than entries of
             Inl x \<Rightarrow> (Inl x, st1)
           | Inr vurls \<Rightarrow>
               (case newest_of env entries of
                  Inl x \<Rightarrow> (Inl x, st1)
                | Inr newest \<Rightarrow> (Inr (vurls, newest), st1))))"

section \<open>Downloader invoker\<close>

text \<open>
  \<^verbatim>\<open>check_call\<close> raises \<^verbatim>\<open>CalledProcessError\<close> when the program exits with a status
  other than zero, \<^verbatim>\<open>OSError\<close> when the program cannot be started and \<^verbatim>\<open>TypeError\<close> when
  an argument is not a string. Only the first is caught.
\<close>

definition download :: "env \<Rightarrow> string \<Rightarrow> pyval \<Rightarrow> state \<Rightarrow> (pyexc + unit) \<times> state" where
  "download env vurl downloader st =
     (case downloader of
        PStr d \<Rightarrow>
          (let st1 = emit (Exec downloader vurl) st in
           case check_call env d vurl of
             Exited rc \<Rightarrow>
               if rc = 0 then (Inr (), st1)
               else (Inr (), emit (Log Error ''Download failed: %s'' [PStr vurl]) st1)
           | NotStarted \<Rightarrow> (Inl OSError, st1))
      | _ \<Rightarrow> (Inl TypeError, st))"

section \<open>Python's subscripts, iteration and \<^verbatim>\<open>int\<close>\<close>

fun hashable :: "pyval \<Rightarrow> bool" where
  "hashable (PList xs) = False"
| "hashable (PDict kvs) = False"
| "hashable v = True"

text \<open>Equality of dictionary keys: \<^verbatim>\<open>True == 1\<close> and \<^verbatim>\<open>False == 0\<close>.\<close>

fun key_eq :: "pyval \<Rightarrow> pyval \<Rightarrow> bool" where
  "key_eq (PBool a) (PInt i) = (i = (if a then 1 else 0))"
| "key_eq (PInt i) (PBool a) = (i = (if a then 1 else 0))"
| "key_eq a b = (a = b)"

fun dict_get :: "(pyval \<times> pyval) list \<Rightarrow> pyval \<Rightarrow> pyval option" where
  "dict_get [] k = None"
| "dict_get ((k', v) # kvs) k = (if key_eq k' k then Some v else dict_get kvs k)"

fun dict_set :: "(pyval \<times> pyval) list \<Rightarrow> pyval \<Rightarrow> pyval \<Rightarrow> (pyval \<times> pyval) list" where
  "dict_set [] k v = [(k, v)]"
| "dict_set ((k', v') # kvs) k v =
     (if key_eq k' k then (k', v) # kvs else (k', v') # dict_set kvs k v)"

definition norm_index :: "nat \<Rightarrow> int \<Rightarrow> pyexc + nat" where
  "norm_index n i =
     (let j = (if i < 0 then i + int n else i)
      in if 0 \<le> j \<and> j < int n then Inr (nat j) else Inl IndexError)"

fun index_of :: "nat \<Rightarrow> pyval \<Rightarrow> pyexc + nat" where
  "index_of n (PInt i) = norm_index n i"
| "index_of n (PBool b) = norm_index n (if b then 1 else 0)"
| "index_of n k = Inl TypeError"

fun getitem :: "pyval \<Rightarrow> pyval \<Rightarrow> pyexc + pyval" where
  "getitem (PDict kvs) k =
     (if hashable k
      then (case dict_get kvs k of None \<Rightarrow> Inl KeyError | Some v \<Rightarrow> Inr v)
      else Inl TypeError)"
| "getitem (PList xs) k =
     (case index_of (length xs) k of Inl x \<Rightarrow> Inl x | Inr n \<Rightarrow> Inr (xs ! n))"
| "getitem (PStr s) k =
     (case index_of (length s) k of Inl x \<Rightarrow> Inl x | Inr n \<Rightarrow> Inr (PStr [s ! n]))"
| "getitem d k = Inl TypeError"

fun setitem :: "pyval \<Rightarrow> pyval \<Rightarrow> pyval \<Rightarrow> pyexc + pyval" where
  "setitem (PDict kvs) k v =
     (if hashable k then Inr (PDict (dict_set kvs k v)) else Inl TypeError)"
| "setitem (PList xs) k v =
     (case index_of (length xs) k of Inl x \<Rightarrow> Inl x | Inr n \<Rightarrow> Inr (PList (xs[n := v])))"
| "setitem d k v = Inl TypeError"

fun py_iter :: "pyval \<Rightarrow> pyexc + pyval list" where
  "py_iter (PList xs) = Inr xs"
| "py_iter (PDict kvs) = Inr (map fst kvs)"
| "py_iter (PStr s) = Inr (map (\<lambda>c. PStr [c]) s)"
| "py_iter v = Inl TypeError"

fun py_int :: "env \<Rightarrow> pyval \<Rightarrow> pyexc + int" where
  "py_int env (PInt i) = Inr i"
| "py_int env (PBool b) = Inr (if b then 1 else 0)"
| "py_int env (PStr s) = (case int_str env s of None \<Rightarrow> Inl ValueError | Some i \<Rightarrow> Inr i)"
| "py_int env v = Inl TypeError"

text \<open>
  \<^verbatim>\<open>try: body except A: raise X except B: raise Y\<close> is \<open>reraise [(A, X), (B, Y)] body\<close>;
  an exception that no clause names goes through.
\<close>

definition reraise :: "(pyexc \<times> pyexc) list \<Rightarrow> pyexc + 'a \<Rightarrow> pyexc + 'a" where
  "reraise handlers r =
     (case r of
        Inr v \<Rightarrow> Inr v
      | Inl x \<Rightarrow> (case map_of handlers x of None \<Rightarrow> Inl x | Some x' \<Rightarrow> Inl x'))"

section \<open>Run orchestrator\<close>

definition SUPPORTED_DOWNLOADERS :: "pyval list" where
  "SUPPORTED_DOWNLOADERS = [PStr ''aria2c'', PStr ''wget'', PStr ''youtube-dl'']"

text \<open>
  \<^verbatim>\<open>replace(hour=0, minute=0, second=0, microsecond=0)\<close> goes back to the start of the
  day. \<^verbatim>\<open>timedelta(days=n)\<close> raises \<^verbatim>\<open>OverflowError\<close> beyond 999999999 days, and so does a
  subtraction that leaves the years 1 to 9999.
\<close>

definition midnight :: "datetime \<Rightarrow> datetime" where
  "midnight t = t - t mod 86400"

definition timedelta_days :: "int \<Rightarrow> pyexc + int" where
  "timedelta_days d = (if 999999999 < \<bar>d\<bar> then Inl OverflowError else Inr (86400 * d))"

definition datetime_max :: datetime where
  "datetime_max = 3652059 * 86400 - 1"

definition datetime_sub :: "datetime \<Rightarrow> int \<Rightarrow> pyexc + datetime" where
  "datetime_sub t delta =
     (let r = t - delta in if r < 0 \<or> datetime_max < r then Inl OverflowError else Inr r)"

text \<open>Lines 125 to 135: the time frame.\<close>

definition start_time_of :: "env \<Rightarrow> pyval \<Rightarrow> pyexc + datetime" where
  "start_time_of env settings =
     reraise
       [(KeyError, InvalidInputDataException ''No time frame given in settings file'' []),
        (TypeError, InvalidInputDataException ''Invalid time frame given in settings file'' [])]
       (case getitem settings (PStr ''maxage'') of
          Inl x \<Rightarrow> Inl x
        | Inr v \<Rightarrow>
            (case py_int env v of
               Inl x \<Rightarrow> Inl x
             | Inr maxage \<Rightarrow>
                 (case timedelta_days maxage of
                    Inl x \<Rightarrow> Inl x
                  | Inr delta \<Rightarrow> datetime_sub (midnight (now env)) delta)))"

text \<open>Lines 115 to 139: the settings.\<close>

definition parse_settings ::
  "env \<Rightarrow> pyval \<Rightarrow> state \<Rightarrow> (pyexc + datetime \<times> pyval) \<times> state" where
  "parse_settings env settings st =
     (case reraise [(KeyError, InvalidInputDataException ''No directory given in settings file'' [])]
             (getitem settings (PStr ''directory'')) of
        Inl x \<Rightarrow> (Inl x, st)
      | Inr directory \<Rightarrow>
          (case chdir env directory of
             ChdirOSError \<Rightarrow>
               (Inl (InvalidInputDataException ''Directory given in settings file does not exist'' []), st)
           | ChdirTypeError \<Rightarrow> (Inl TypeError, st)
           | ChdirValueError \<Rightarrow> (Inl ValueError, st)
           | ChdirOk \<Rightarrow>
               (let st1 = emit (Chdir directory) st in
                case start_time_of env settings of
                  Inl x \<Rightarrow> (Inl x, st1)
                | Inr start_time \<Rightarrow>
                    (case reraise [(KeyError, InvalidInputDataException ''No feeds given in settings file'' [])]
                            (getitem settings (PStr ''feeds'')) of
                       Inl x \<Rightarrow> (Inl x, st1)
                     | Inr feeds \<Rightarrow> (Inr (start_time, feeds), st1)))))"

text \<open>
  Lines 143 to 154: a file that cannot be opened reads as \<^verbatim>\<open>{}\<close>; text that is not
  JSON is dropped with a warning. \<^verbatim>\<open>read\<close> stands in the \<^verbatim>\<open>try\<close> that catches
  \<^verbatim>\<open>IOError\<close> only, so the \<^verbatim>\<open>UnicodeDecodeError\<close> of bytes that do not decode leaves
  the function.
\<close>

definition load_last_run :: "state \<Rightarrow> (pyexc + pyval) \<times> state" where
  "load_last_run st =
     (case wm_file st of
        None \<Rightarrow> (Inr (PDict []), st)
      | Some Undecodable \<Rightarrow> (Inl UnicodeDecodeError, st)
      | Some Garbage \<Rightarrow>
          (Inr (PDict []),
           emit (Log Warning ''Ignoring .newsfeed_media_dl.json due to parsing error'' []) st)
      | Some (JsonText v) \<Rightarrow> (Inr v, st))"

text \<open>Lines 158 to 163: the three fields of a feed.\<close>

definition py_re_compile :: "env \<Rightarrow> pyval \<Rightarrow> pyexc + pattern" where
  "py_re_compile env v =
     (case v of
        PStr s \<Rightarrow> (case re_compile env s of None \<Rightarrow> Inl ReError | Some p \<Rightarrow> Inr p)
      | _ \<Rightarrow> Inl TypeError)"

definition feed_fields :: "env \<Rightarrow> pyval \<Rightarrow> pyexc + pyval \<times> pattern \<times> pyval" where
  "feed_fields env feed =
     reraise
       [(KeyError, InvalidInputDataException ''Invalid feeds list'' []),
        (TypeError, InvalidInputDataException ''Invalid feeds list'' [])]
       (case getitem feed (PStr ''url'') of
          Inl x \<Rightarrow> Inl x
        | Inr url \<Rightarrow>
            (case getitem feed (PStr ''regex'') of
               Inl x \<Rightarrow> Inl x
             | Inr r \<Rightarrow>
                 (case py_re_compile env r of
                    Inl x \<Rightarrow> Inl x
                  | Inr regex \<Rightarrow>
                      (case getitem feed (PStr ''downloader'') of
                         Inl x \<Rightarrow> Inl x
                       | Inr downloader \<Rightarrow> Inr (url, regex, downloader)))))"

text \<open>Lines 168 to 173: the cutoff of a feed.\<close>

definition py_strptime :: "env \<Rightarrow> pyval \<Rightarrow> pyexc + datetime" where
  "py_strptime env v =
     (case v of
        PStr s \<Rightarrow> (case strptime env s of None \<Rightarrow> Inl ValueError | Some t \<Rightarrow> Inr t)
      | _ \<Rightarrow> Inl TypeError)"

definition newer_than_of :: "env \<Rightarrow> datetime \<Rightarrow> pyval \<Rightarrow> pyval \<Rightarrow> pyexc + datetime" where
  "newer_than_of env start_time last_run url =
     (case getitem last_run url of
        Inl x \<Rightarrow> (if x = KeyError then Inr start_time else Inl x)
      | Inr v \<Rightarrow>
          (case py_strptime env v of
             Inl x \<Rightarrow> (if x = KeyError then Inr start_time else Inl x)
           | Inr t \<Rightarrow> Inr (max start_time t)))"

text \<open>Lines 180 to 182: one download after the other.\<close>

fun download_all :: "env \<Rightarrow> string list \<Rightarrow> pyval \<Rightarrow> state \<Rightarrow> (pyexc + unit) \<times> state" where
  "download_all env [] downloader st = (Inr (), st)"
| "download_all env (vurl # vurls) downloader st =
     (case download env vurl downloader (emit (Log Debug ''Found url: %s'' [PStr vurl]) st) of
        (Inl x, st1) \<Rightarrow> (Inl x, st1)
      | (Inr u, st1) \<Rightarrow> download_all env vurls downloader st1)"

text \<open>Lines 186 to 189: the file is overwritten with \<^verbatim>\<open>json.dumps(last_run)\<close>.\<close>

definition write_last_run :: "pyval \<Rightarrow> state \<Rightarrow> state" where
  "write_last_run last_run st = emit (WriteFile last_run) (st\<lparr>wm_file := Some (JsonText last_run)\<rparr>)"

text \<open>The body of the loop over the feeds; it returns the updated \<^verbatim>\<open>last_run\<close>.\<close>

definition download_new_feed ::
  "env \<Rightarrow> datetime \<Rightarrow> pyval \<Rightarrow> pyval \<Rightarrow> state \<Rightarrow> (pyexc + pyval) \<times> state" where
  "download_new_feed env start_time feed last_run st =
     (case feed_fields env feed of
        Inl x \<Rightarrow> (Inl x, st)
      | Inr (url, regex, downloader) \<Rightarrow>
          (let st1 = emit (Log Debug ''Parsing feed: %s'' [url]) st in
           if downloader \<notin> set SUPPORTED_DOWNLOADERS
           then (Inl (InvalidInputDataException ''Unsupported downloader: %s'' [downloader]), st1)
           else
             (case newer_than_of env start_time last_run url of
                Inl x \<Rightarrow> (Inl x, st1)
              | Inr newer_than \<Rightarrow>
                  (case extract_items env url regex newer_than st1 of
                     (Inl x, st2) \<Rightarrow> (Inl x, st2)
                   | (Inr (vurls, newest), st2) \<Rightarrow>
                       (case download_all env vurls downloader st2 of
                          (Inl x, st3) \<Rightarrow> (Inl x, st3)
                        | (Inr u, st3) \<Rightarrow>
                            (case setitem last_run url (PStr (isoformat env newest)) of
                               Inl x \<Rightarrow> (Inl x, st3)
                             | Inr last_run' \<Rightarrow> (Inr last_run', write_last_run last_run' st3)))))))"

fun download_new_feeds ::
  "env \<Rightarrow> datetime \<Rightarrow> pyval list \<Rightarrow> pyval \<Rightarrow> state \<Rightarrow> (pyexc + pyval) \<times> state" where
  "download_new_feeds env start_time [] last_run st = (Inr last_run, st)"
| "download_new_feeds env start_time (feed # feeds) last_run st =
     (case download_new_feed env start_time feed last_run st of
        (Inl x, st1) \<Rightarrow> (Inl x, st1)
      | (Inr last_run', st1) \<Rightarrow> download_new_feeds env start_time feeds last_run' st1)"

text \<open>Lines 157 to 189: the loop statement; \<^verbatim>\<open>for\<close> raises on a value it cannot iterate.\<close>

definition download_new_loop ::
  "env \<Rightarrow> datetime \<Rightarrow> pyval \<Rightarrow> pyval \<Rightarrow> state \<Rightarrow> (pyexc + unit) \<times> state" where
  "download_new_loop env start_time feeds last_run st =
     (case py_iter feeds of
        Inl x \<Rightarrow> (Inl x, st)
      | Inr fs \<Rightarrow>
          (case download_new_feeds env start_time fs last_run st of
             (Inl x, st1) \<Rightarrow> (Inl x, st1)
           | (Inr last_run', st1) \<Rightarrow> (Inr (), st1)))"

text \<open>
  Lines 108 to 154: the settings file is read and parsed, then the file of the last run;
  the result is the start of the time frame, the feeds and \<^verbatim>\<open>last_run\<close>.
\<close>

definition download_new_setup ::
  "env \<Rightarrow> string \<Rightarrow> state \<Rightarrow> (pyexc + datetime \<times> pyval \<times> pyval) \<times> state" where
  "download_new_setup env settings_file st =
     (let st0 = emit (Log Debug ''Starting download_new... '' []) st in
      case read_file env settings_file of
        None \<Rightarrow> (Inl OSError, st0)
      | Some Undecodable \<Rightarrow> (Inl UnicodeDecodeError, st0)
      | Some Garbage \<Rightarrow> (Inl JSONDecodeError, st0)
      | Some (JsonText settings) \<Rightarrow>
          (case parse_settings env settings st0 of
             (Inl x, st1) \<Rightarrow> (Inl x, st1)
           | (Inr (start_time, feeds), st1) \<Rightarrow>
               (case load_last_run st1 of
                  (Inl x, st2) \<Rightarrow> (Inl x, st2)
                | (Inr last_run, st2) \<Rightarrow> (Inr (start_time, feeds, last_run), st2))))"

definition download_new :: "env \<Rightarrow> string \<Rightarrow> state \<Rightarrow> (pyexc + unit) \<times> state" where
  "download_new env settings_file st =
     (case download_new_setup env settings_file st of
        (Inl x, st1) \<Rightarrow> (Inl x, st1)
      | (Inr (start_time, feeds, last_run), st1) \<Rightarrow>
          download_new_loop env start_time feeds last_run st1)"

section \<open>Reading a trace\<close>

text \<open>
  \<open>store_at v evs\<close> is the value that the file holds after the effects \<open>evs\<close> when it
  held \<open>v\<close> before them: the last value written, if any. An event is outward when it is
  a fetch of a feed or a start of a downloader.
\<close>

fun store_at :: "pyval \<Rightarrow> event list \<Rightarrow> pyval" where
  "store_at v [] = v"
| "store_at v (WriteFile w # evs) = store_at w evs"
| "store_at v (ev # evs) = store_at v evs"

text \<open>
  \<open>cutoff_ok\<close> says what the cutoff of a feed has to be for a given store, and
  \<open>cutoffs_ok\<close> checks every fetch of a trace against the store of its moment.
\<close>

definition cutoff_ok :: "env \<Rightarrow> datetime \<Rightarrow> pyval \<Rightarrow> pyval \<Rightarrow> datetime \<Rightarrow> bool" where
  "cutoff_ok env start_time store url c =
     (case getitem store url of
        Inl x \<Rightarrow> x = KeyError \<and> c = start_time
      | Inr v \<Rightarrow>
          (case v of
             PStr s \<Rightarrow> (case strptime env s of None \<Rightarrow> False | Some t \<Rightarrow> c = max start_time t)
           | _ \<Rightarrow> False))"

fun cutoffs_ok :: "env \<Rightarrow> datetime \<Rightarrow> pyval \<Rightarrow> event list \<Rightarrow> bool" where
  "cutoffs_ok env start_time store [] = True"
| "cutoffs_ok env start_time store (WriteFile w # evs) = cutoffs_ok env start_time w evs"
| "cutoffs_ok env start_time store (Extract url c # evs) =
     (cutoff_ok env start_time store url c \<and> cutoffs_ok env start_time store evs)"
| "cutoffs_ok env start_time store (ev # evs) = cutoffs_ok env start_time store evs"


fun execs :: "event list \<Rightarrow> (pyval \<times> string) list" where
  "execs [] = []"
| "execs (Exec d u # evs) = (d, u) # execs evs"
| "execs (ev # evs) = execs evs"

section \<open>The format of a stored time, as the specification words it\<close>

text \<open>
  The specification gives the values of the file as \<^verbatim>\<open>YYYY-MM-DDTHH:MM:SS\<close>: nineteen
  characters, digits but for the two hyphens, the \<^verbatim>\<open>T\<close> and the two colons. The program
  itself has no such test: it hands the string to \<^verbatim>\<open>datetime.strptime\<close>.
\<close>

definition is_digit :: "char \<Rightarrow> bool" where
  "is_digit c = (c \<in> set ''0123456789'')"

definition spec_iso_format :: "string \<Rightarrow> bool" where
  "spec_iso_format s =
     (length s = 19 \<and>
      list_all (\<lambda>i. is_digit (s ! i)) [0, 1, 2, 3, 5, 6, 8, 9, 11, 12, 14, 15, 17, 18] \<and>
      s ! 4 = CHR ''-'' \<and> s ! 7 = CHR ''-'' \<and> s ! 10 = CHR ''T'' \<and>
      s ! 13 = CHR '':'' \<and> s ! 16 = CHR '':'')"

section \<open>An example environment\<close>

text \<open>
  A feed with three entries on 2024-01-10: ``Breaking News'' published the day before,
  ``Breaking Update'' with an updated time only, and ``Other''; a second feed whose first
  title has the word in the middle. The pattern \<^verbatim>\<open>Breaking\<close> matches these eight
  characters wherever they stand, \<^verbatim>\<open>^Breaking\<close> only at position zero. The downloader
  fails on the second link. Times are seconds since 0001-01-01T00:00:00; the environment
  answers for the files, strings and times of the example. The host keeps UTC all year, so
  the two time conversions give back what they get, but for the first day of year 1, where
  \<^verbatim>\<open>datetime.fromtimestamp\<close> raises \<^verbatim>\<open>ValueError\<close>.
\<close>

definition occurs :: "string \<Rightarrow> pattern" where
  "occurs w s i j = (j = i + length w \<and> take (length w) (drop i s) = w)"

definition starts_with :: "string \<Rightarrow> pattern" where
  "starts_with w s i j = (i = 0 \<and> occurs w s i j)"

definition entry1 :: entry where
  "entry1 = \<lparr>link = Attr ''http://example.org/a.mp4'', title = Attr ''Breaking News'',
     published_parsed = Attr (Some 63840387600), updated_parsed = Attr (Some 63840470400)\<rparr>"

definition entry2 :: entry where
  "entry2 = \<lparr>link = Attr ''http://example.org/b.mp4'', title = Attr ''Breaking Update'',
     published_parsed = NoAttr, updated_parsed = Attr (Some 63840470400)\<rparr>"

definition entry3 :: entry where
  "entry3 = \<lparr>link = Attr ''http://example.org/c.mp4'', title = Attr ''Other'',
     published_parsed = Attr (Some 63840477600), updated_parsed = NoAttr\<rparr>"


definition entry5 :: entry where
  "entry5 = \<lparr>link = Attr ''http://example.org/e.mp4'', title = Attr ''Late Breaking News'',
     published_parsed = Attr (Some 63840477600), updated_parsed = NoAttr\<rparr>"


definition feed_ok :: pyval where
  "feed_ok = PDict [(PStr ''url'', PStr ''http://example.org/feed''),
     (PStr ''regex'', PStr ''^Breaking''), (PStr ''downloader'', PStr ''wget'')]"

definition feed_curl :: pyval where
  "feed_curl = PDict [(PStr ''url'', PStr ''http://example.org/other''),
     (PStr ''regex'', PStr ''^Breaking''), (PStr ''downloader'', PStr ''curl'')]"

definition feed_late :: pyval where
  "feed_late = PDict [(PStr ''url'', PStr ''http://example.org/late''),
     (PStr ''regex'', PStr ''Breaking''), (PStr ''downloader'', PStr ''aria2c'')]"

definition settings_of :: "pyval \<Rightarrow> pyval list \<Rightarrow> pyval" where
  "settings_of maxage feeds = PDict [(PStr ''directory'', PStr ''/media''),
     (PStr ''maxage'', maxage), (PStr ''feeds'', PList feeds)]"

definition env0 :: env where
  "env0 = \<lparr>now = 63840486896,
     read_file = map_of
       [(''one.json'', JsonText (settings_of (PInt 7) [feed_ok])),
        (''two.json'', JsonText (settings_of (PInt 7) [feed_ok, feed_curl])),
        (''curl.json'', JsonText (settings_of (PInt 7) [feed_curl, feed_ok])),
        (''both.json'', JsonText (settings_of (PInt 7) [feed_ok, feed_late])),
        (''abc.json'', JsonText (settings_of (PStr ''abc'') [feed_ok]))],
     chdir = (\<lambda>v. case v of PStr s \<Rightarrow> if s = ''/media'' then ChdirOk else ChdirOSError
                      | PInt i \<Rightarrow> ChdirOSError | PBool b \<Rightarrow> ChdirOSError
                      | _ \<Rightarrow> ChdirTypeError),
     int_str = map_of [(''7'', 7)],
     re_compile = map_of [(''^Breaking'', starts_with ''Breaking''), (''Breaking'', occurs ''Breaking'')],
     strptime = map_of
       [(''2024-01-09T09:00:00'', 63840387600), (''2024-01-09T12:00:00'', 63840398400),
        (''2024-1-9T12:0:0'', 63840398400),
        (''2024-01-10T08:00:00'', 63840470400), (''2024-01-10T10:00:00'', 63840477600)],
     isoformat = (\<lambda>t. if t = 63840387600 then ''2024-01-09T09:00:00''
                     else if t = 63840398400 then ''2024-01-09T12:00:00''
                     else if t = 63840470400 then ''2024-01-10T08:00:00''
                     else if t = 63840477600 then ''2024-01-10T10:00:00''
                     else ''0001-01-01T00:00:00''),
     time_mktime = Inr,
     fromtimestamp = (\<lambda>ts. if ts < 86400 then Inl ValueError else Inr ts),
     feedparser_parse = (\<lambda>u. if u = PStr ''http://example.org/feed''
                             then Some [entry1, entry2, entry3]
                             else if u = PStr ''http://example.org/late''
                             then Some [entry5, entry1] else Some []),
     check_call = (\<lambda>d u. if u = ''http://example.org/b.mp4'' then Exited 1 else Exited 0)\<rparr>"


text \<open>The same environment on a machine where no downloader is installed.\<close>

definition env_missing :: env where
  "env_missing = env0\<lparr>check_call := (\<lambda>d u. NotStarted)\<rparr>"

definition st0 :: state where
  "st0 = \<lparr>wm_file = None, trace = []\<rparr>"

section \<open>Theorems\<close>

subsection \<open>The feed filter\<close>

lemma re_match_iff: "re_match p s \<longleftrightarrow> (\<exists>j\<le>length s. p s 0 j)"
  by (simp add: re_match_def list_ex_iff Bex_def less_Suc_eq_le del: upt_Suc)

lemma vurls_of_filter:
  "vurls_of env regex newer_than es = Inr ls \<Longrightarrow>
   map Attr ls = map link (filter (\<lambda>e. (\<exists>t. get_entry_datetime env e = Inr t \<and> newer_than < t) \<and>
                                      (\<exists>s. title e = Attr s \<and> re_match regex s)) es)"
proof (induction es arbitrary: ls)
  case Nil
  then show ?case by simp
next
  case (Cons e es)
  then show ?case
    by (auto split: sum.splits if_splits attr.splits)
qed

lemma entry_datetimes_map:
  "entry_datetimes env es = Inr ts \<Longrightarrow> map (get_entry_datetime env) es = map Inr ts"
  by (induction es arbitrary: ts) (auto split: sum.splits)

lemma newest_of_Max:
  assumes "newest_of env es = Inr n"
  shows "(\<forall>e\<in>set es. \<exists>t. get_entry_datetime env e = Inr t \<and> t \<le> n) \<and>
         (\<exists>e\<in>set es. get_entry_datetime env e = Inr n)"
proof -
  from assms obtain t ts where ts: "entry_datetimes env es = Inr (t # ts)" and n: "n = fold max ts t"
    by (auto simp: newest_of_def split: sum.splits list.splits)
  have m: "map (get_entry_datetime env) es = map Inr (t # ts)"
    using ts by (rule entry_datetimes_map)
  have nM: "n = Max (set (t # ts))"
    using n Max.set_eq_fold [of t ts] by simp
  have fin: "finite (set (t # ts))" by simp
  have "\<And>e. e \<in> set es \<Longrightarrow> \<exists>u. get_entry_datetime env e = Inr u \<and> u \<le> n"
  proof -
    fix e assume "e \<in> set es"
    then have "get_entry_datetime env e \<in> set (map (get_entry_datetime env) es)" by simp
    then have "get_entry_datetime env e \<in> Inr ` set (t # ts)" unfolding m by simp
    then obtain u where u: "get_entry_datetime env e = Inr u" "u \<in> set (t # ts)" by auto
    then have "u \<le> n" unfolding nM using fin by (intro Max_ge) auto
    with u show "\<exists>u. get_entry_datetime env e = Inr u \<and> u \<le> n" by blast
  qed
  moreover have "\<exists>e\<in>set es. get_entry_datetime env e = Inr n"
  proof -
    have "n \<in> set (t # ts)" unfolding nM using fin by (intro Max_in) auto
    then have "Inr n \<in> set (map Inr (t # ts) :: (pyexc + datetime) list)" by auto
    then have "Inr n \<in> set (map (get_entry_datetime env) es)" unfolding m .
    then show ?thesis by auto
  qed
  ultimately show ?thesis by blast
qed

lemma extract_items_Inr:
  "extract_items env url regex newer_than st = (Inr (vurls, newest), st') \<Longrightarrow>
   \<exists>entries. feedparser_parse env url = Some entries \<and>
     vurls_of env regex newer_than entries = Inr vurls \<and> newest_of env entries = Inr newest \<and>
     st' = emit (Extract url newer_than) st"
  by (auto simp: extract_items_def Let_def split: option.splits sum.splits)



text \<open>
  C1: when \<^verbatim>\<open>extract_items\<close> returns, the links it returns are, in feed order, the links
  of exactly those entries whose resolved time is strictly after the cutoff and whose title
  has a match of the pattern that starts at position zero; the match may end before the
  end of the title, and a match that starts later does not count.
\<close>

theorem extract_items_links:
  assumes "extract_items env url regex newer_than st = (Inr (vurls, newest), st')"
  shows "\<exists>entries. feedparser_parse env url = Some entries \<and>
           map Attr vurls =
           map link (filter (\<lambda>e. (\<exists>t. get_entry_datetime env e = Inr t \<and> newer_than < t) \<and>
                                 (\<exists>s j. title e = Attr s \<and> j \<le> length s \<and> regex s 0 j))
                       entries)"
proof -
  from extract_items_Inr [OF assms] obtain entries where
    p: "feedparser_parse env url = Some entries" and
    v: "vurls_of env regex newer_than entries = Inr vurls"
    by blast
  from vurls_of_filter [OF v] have
    "map Attr vurls =
     map link (filter (\<lambda>e. (\<exists>t. get_entry_datetime env e = Inr t \<and> newer_than < t) \<and>
                           (\<exists>s j. title e = Attr s \<and> j \<le> length s \<and> regex s 0 j))
                 entries)"
    by (simp add: re_match_iff)
  with p show ?thesis by blast
qed

theorem extract_items_links_witness:
  "extract_items env0 (PStr ''http://example.org/late'') (occurs ''Breaking'') 63839836800 st0 =
     (Inr ([''http://example.org/a.mp4''], 63840477600),
      emit (Extract (PStr ''http://example.org/late'') 63839836800) st0) \<and>
   (\<exists>entries. feedparser_parse env0 (PStr ''http://example.org/late'') = Some entries \<and>
      map Attr [''http://example.org/a.mp4''] =
      map link (filter (\<lambda>e. (\<exists>t. get_entry_datetime env0 e = Inr t \<and> 63839836800 < t) \<and>
                            (\<exists>s j. title e = Attr s \<and> j \<le> length s \<and> occurs ''Breaking'' s 0 j))
                  entries))"
proof -
  have h: "extract_items env0 (PStr ''http://example.org/late'') (occurs ''Breaking'') 63839836800 st0 =
     (Inr ([''http://example.org/a.mp4''], 63840477600),
      emit (Extract (PStr ''http://example.org/late'') 63839836800) st0)"
    by code_simp
  from h extract_items_links [OF h] show ?thesis by (rule conjI)
qed

text \<open>
  C2: when \<^verbatim>\<open>extract_items\<close> returns, \<open>newest\<close> is at least the resolved time of every
  entry of the feed and is the resolved time of one of them; any other call on the same
  feed, with whatever pattern and cutoff, returns the same \<open>newest\<close>. On a feed with no
  entries \<^verbatim>\<open>extract_items\<close> does not return: it raises \<^verbatim>\<open>ValueError\<close>.
\<close>

theorem extract_items_newest:
  "(extract_items env url regex newer_than st = (Inr (vurls, newest), st') \<longrightarrow>
      (\<exists>entries. feedparser_parse env url = Some entries \<and>
         (\<forall>e\<in>set entries. \<exists>t. get_entry_datetime env e = Inr t \<and> t \<le> newest) \<and>
         (\<exists>e\<in>set entries. get_entry_datetime env e = Inr newest)) \<and>
      (\<forall>regex' newer_than' st1 vurls' newest' st1'.
         extract_items env url regex' newer_than' st1 = (Inr (vurls', newest'), st1')
           \<longrightarrow> newest' = newest)) \<and>
   (feedparser_parse env url = Some [] \<longrightarrow>
      fst (extract_items env url regex newer_than st) = Inl ValueError)"
proof (intro conjI impI allI)
  assume a: "extract_items env url regex newer_than st = (Inr (vurls, newest), st')"
  from extract_items_Inr [OF a] obtain entries where
    p: "feedparser_parse env url = Some entries" and n: "newest_of env entries = Inr newest"
    by blast
  from p newest_of_Max [OF n]
  show "\<exists>entries. feedparser_parse env url = Some entries \<and>
         (\<forall>e\<in>set entries. \<exists>t. get_entry_datetime env e = Inr t \<and> t \<le> newest) \<and>
         (\<exists>e\<in>set entries. get_entry_datetime env e = Inr newest)"
    by blast
  fix regex' newer_than' st1 vurls' newest' st1'
  assume b: "extract_items env url regex' newer_than' st1 = (Inr (vurls', newest'), st1')"
  from extract_items_Inr [OF b] p n show "newest' = newest" by auto
next
  assume "feedparser_parse env url = Some []"
  then show "fst (extract_items env url regex newer_than st) = Inl ValueError"
    by (simp add: extract_items_def newest_of_def)
qed

theorem extract_items_newest_witness:
  "extract_items env0 (PStr ''http://example.org/feed'') (starts_with ''Breaking'') 63840470400 st0 =
     (Inr ([], 63840477600), emit (Extract (PStr ''http://example.org/feed'') 63840470400) st0) \<and>
   extract_items env0 (PStr ''http://example.org/feed'') (occurs ''Breaking'') 63839836800 st0 =
     (Inr ([''http://example.org/a.mp4'', ''http://example.org/b.mp4''], 63840477600),
      emit (Extract (PStr ''http://example.org/feed'') 63839836800) st0) \<and>
   (\<exists>t. get_entry_datetime env0 entry1 = Inr t \<and> t \<le> 63840477600) \<and>
   (\<exists>t. get_entry_datetime env0 entry2 = Inr t \<and> t \<le> 63840477600) \<and>
   (\<exists>t. get_entry_datetime env0 entry3 = Inr t \<and> t \<le> 63840477600) \<and>
   get_entry_datetime env0 entry3 = Inr 63840477600 \<and>
   feedparser_parse env0 (PStr ''http://example.org/none'') = Some [] \<and>
   fst (extract_items env0 (PStr ''http://example.org/none'') (occurs ''Breaking'') 0 st0) = Inl ValueError"
proof -
  have h1: "extract_items env0 (PStr ''http://example.org/feed'') (starts_with ''Breaking'') 63840470400 st0 =
     (Inr ([], 63840477600), emit (Extract (PStr ''http://example.org/feed'') 63840470400) st0)"
    by code_simp
  have h2: "extract_items env0 (PStr ''http://example.org/feed'') (occurs ''Breaking'') 63839836800 st0 =
     (Inr ([''http://example.org/a.mp4'', ''http://example.org/b.mp4''], 63840477600),
      emit (Extract (PStr ''http://example.org/feed'') 63839836800) st0)"
    by code_simp
  have p: "feedparser_parse env0 (PStr ''http://example.org/feed'') = Some [entry1, entry2, entry3]"
    by (simp add: env0_def)
  have q: "feedparser_parse env0 (PStr ''http://example.org/none'') = Some []"
    by (simp add: env0_def)
  have e3: "get_entry_datetime env0 entry3 = Inr 63840477600"
    by code_simp
  note t1 = extract_items_newest [of env0 "PStr ''http://example.org/feed''" "starts_with ''Breaking''"
      63840470400 st0 "[]" 63840477600 "emit (Extract (PStr ''http://example.org/feed'') 63840470400) st0"]
  note t2 = extract_items_newest [of env0 "PStr ''http://example.org/none''" "occurs ''Breaking''"
      0 st0 "[]" 0 st0]
  from t1 h1 p have a: "\<forall>e\<in>set [entry1, entry2, entry3]. \<exists>t. get_entry_datetime env0 e = Inr t \<and> t \<le> 63840477600"
    by simp
  from a have "(\<exists>t. get_entry_datetime env0 entry1 = Inr t \<and> t \<le> 63840477600) \<and>
     (\<exists>t. get_entry_datetime env0 entry2 = Inr t \<and> t \<le> 63840477600) \<and>
     (\<exists>t. get_entry_datetime env0 entry3 = Inr t \<and> t \<le> 63840477600)"
    by simp
  moreover from t2 q
  have "fst (extract_items env0 (PStr ''http://example.org/none'') (occurs ''Breaking'') 0 st0) = Inl ValueError"
    by simp
  ultimately show ?thesis using h1 h2 e3 q by simp
qed

subsection \<open>The downloader invoker\<close>

lemma trace_emit [simp]: "trace (emit ev st) = trace st @ [ev]"
  by (simp add: emit_def)

lemma wm_file_emit [simp]: "wm_file (emit ev st) = wm_file st"
  by (simp add: emit_def)

lemma execs_append [simp]: "execs (xs @ ys) = execs xs @ execs ys"
  by (induction xs rule: execs.induct) auto

lemma download_exited:
  "check_call env d vurl = Exited rc \<Longrightarrow>
   \<exists>st'. download env vurl (PStr d) st = (Inr (), st') \<and> wm_file st' = wm_file st \<and>
         execs (trace st') = execs (trace st) @ [(PStr d, vurl)]"
  by (simp add: download_def Let_def)

lemma download_all_exited:
  "\<forall>u\<in>set vurls. \<exists>rc. check_call env d u = Exited rc \<Longrightarrow>
   \<exists>st'. download_all env vurls (PStr d) st = (Inr (), st') \<and> wm_file st' = wm_file st \<and>
         execs (trace st') = execs (trace st) @ map (Pair (PStr d)) vurls"
proof (induction vurls arbitrary: st)
  case Nil
  then show ?case by simp
next
  case (Cons u us)
  from Cons.prems obtain rc where rc: "check_call env d u = Exited rc" by auto
  from download_exited [OF rc, of "emit (Log Debug ''Found url: %s'' [PStr u]) st"]
  obtain st1 where d: "download env u (PStr d) (emit (Log Debug ''Found url: %s'' [PStr u]) st) = (Inr (), st1)"
    and w: "wm_file st1 = wm_file st"
    and e: "execs (trace st1) = execs (trace st) @ [(PStr d, u)]"
    by auto
  from Cons.prems have "\<forall>u\<in>set us. \<exists>rc. check_call env d u = Exited rc" by simp
  from Cons.IH [OF this, of st1] obtain st' where
    "download_all env us (PStr d) st1 = (Inr (), st')" "wm_file st' = wm_file st1"
    "execs (trace st') = execs (trace st1) @ map (Pair (PStr d)) us"
    by blast
  with d w e show ?case by simp
qed

text \<open>
  C6, amended: when the downloader exits with a status other than zero, \<^verbatim>\<open>download\<close>
  logs the failure with the URL at error severity and returns normally; when every
  downloader that is started exits, whatever its status, the loop over the links of a feed
  runs to its end and starts the downloader once for each link, in order.
\<close>

theorem download_absorbs_exit_status:
  "(check_call env d vurl = Exited rc \<and> rc \<noteq> 0 \<longrightarrow>
      download env vurl (PStr d) st =
        (Inr (), emit (Log Error ''Download failed: %s'' [PStr vurl]) (emit (Exec (PStr d) vurl) st))) \<and>
   ((\<forall>u\<in>set vurls. \<exists>rc. check_call env d u = Exited rc) \<longrightarrow>
      fst (download_all env vurls (PStr d) st) = Inr () \<and>
      execs (trace (snd (download_all env vurls (PStr d) st))) =
        execs (trace st) @ map (Pair (PStr d)) vurls)"
proof (intro conjI impI)
  assume "check_call env d vurl = Exited rc \<and> rc \<noteq> 0"
  then show "download env vurl (PStr d) st =
        (Inr (), emit (Log Error ''Download failed: %s'' [PStr vurl]) (emit (Exec (PStr d) vurl) st))"
    by (simp add: download_def Let_def)
next
  assume a: "\<forall>u\<in>set vurls. \<exists>rc. check_call env d u = Exited rc"
  from download_all_exited [OF a, of st]
  show "fst (download_all env vurls (PStr d) st) = Inr ()" by auto
  from download_all_exited [OF a, of st]
  show "execs (trace (snd (download_all env vurls (PStr d) st))) =
        execs (trace st) @ map (Pair (PStr d)) vurls" by auto
qed

theorem download_absorbs_exit_status_witness:
  "check_call env0 ''wget'' ''http://example.org/b.mp4'' = Exited 1 \<and>
   download env0 ''http://example.org/b.mp4'' (PStr ''wget'') st0 =
     (Inr (), emit (Log Error ''Download failed: %s'' [PStr ''http://example.org/b.mp4''])
                (emit (Exec (PStr ''wget'') ''http://example.org/b.mp4'') st0)) \<and>
   fst (download_all env0 [''http://example.org/a.mp4'', ''http://example.org/b.mp4'', ''http://example.org/c.mp4'']
          (PStr ''wget'') st0) = Inr () \<and>
   execs (trace (snd (download_all env0
       [''http://example.org/a.mp4'', ''http://example.org/b.mp4'', ''http://example.org/c.mp4'']
       (PStr ''wget'') st0))) =
     [(PStr ''wget'', ''http://example.org/a.mp4''), (PStr ''wget'', ''http://example.org/b.mp4''),
      (PStr ''wget'', ''http://example.org/c.mp4'')]"
proof -
  have c: "\<And>u. check_call env0 ''wget'' u = (if u = ''http://example.org/b.mp4'' then Exited 1 else Exited 0)"
    by (simp add: env0_def)
  have t: "execs (trace st0) = []" by (simp add: st0_def)
  from download_absorbs_exit_status [where env = env0 and d = "''wget''"
      and vurl = "''http://example.org/b.mp4''" and rc = 1 and st = st0
      and vurls = "[''http://example.org/a.mp4'', ''http://example.org/b.mp4'', ''http://example.org/c.mp4'']"]
  show ?thesis by (simp add: c t)
qed

text \<open>
  C6 as stated fails: a downloader that cannot be started makes \<^verbatim>\<open>check_call\<close> raise
  \<^verbatim>\<open>OSError\<close>, which \<^verbatim>\<open>download\<close> does not catch; the links after it are not tried.
\<close>

theorem download_not_started_counterexample:
  "check_call env_missing ''wget'' ''http://example.org/a.mp4'' = NotStarted \<and>
   fst (download env_missing ''http://example.org/a.mp4'' (PStr ''wget'') st0) = Inl OSError \<and>
   fst (download_all env_missing [''http://example.org/a.mp4'', ''http://example.org/b.mp4''] (PStr ''wget'') st0)
     = Inl OSError \<and>
   execs (trace (snd (download_all env_missing [''http://example.org/a.mp4'', ''http://example.org/b.mp4'']
     (PStr ''wget'') st0))) = [(PStr ''wget'', ''http://example.org/a.mp4'')]"
  by (simp add: env_missing_def env0_def download_def Let_def st0_def)

subsection \<open>The timestamp resolver\<close>




subsection \<open>The run orchestrator\<close>

lemma write_last_run_simps [simp]:
  "wm_file (write_last_run v st) = Some (JsonText v)"
  "trace (write_last_run v st) = trace st @ [WriteFile v]"
  by (simp_all add: write_last_run_def)

lemma parse_settings_frame:
  "parse_settings env settings st = (r, st') \<Longrightarrow>
   wm_file st' = wm_file st \<and> (\<exists>evs. trace st' = trace st @ evs \<and> (\<forall>ev\<in>set evs. \<exists>v. ev = Chdir v))"
  by (auto simp: parse_settings_def Let_def split: sum.splits chdir_result.splits)


lemma download_new_setup_Inr:
  "download_new_setup env settings_file st = (Inr (start_time, feeds, last_run), st2) \<Longrightarrow>
   \<exists>settings st1. read_file env settings_file = Some (JsonText settings) \<and>
     parse_settings env settings (emit (Log Debug ''Starting download_new... '' []) st)
       = (Inr (start_time, feeds), st1) \<and>
     load_last_run st1 = (Inr last_run, st2)"
  by (auto simp: download_new_setup_def Let_def split: option.splits contents.splits sum.splits prod.splits)


lemma download_new_feeds_append:
  "download_new_feeds env start_time (xs @ ys) last_run st =
     (case download_new_feeds env start_time xs last_run st of
        (Inl x, st1) \<Rightarrow> (Inl x, st1)
      | (Inr last_run', st1) \<Rightarrow> download_new_feeds env start_time ys last_run' st1)"
  by (induction xs arbitrary: last_run st) (auto split: prod.splits sum.splits)

lemma download_new_stops_at:
  assumes "download_new_setup env settings_file st = (Inr (start_time, feeds, last_run), st1)"
      and "py_iter feeds = Inr (before @ feed # after)"
      and "download_new_feeds env start_time before last_run st1 = (Inr last_run', st2)"
      and "download_new_feed env start_time feed last_run' st2 = (Inl x, st3)"
  shows "download_new env settings_file st = (Inl x, st3)"
  using assms
  by (simp add: download_new_def download_new_loop_def download_new_feeds_append)


lemma feed_fields_Inr:
  "feed_fields env feed = Inr (url, regex, downloader) \<Longrightarrow>
   getitem feed (PStr ''url'') = Inr url \<and>
   (\<exists>r. getitem feed (PStr ''regex'') = Inr r \<and> py_re_compile env r = Inr regex) \<and>
   getitem feed (PStr ''downloader'') = Inr downloader"
  by (auto simp: feed_fields_def reraise_def split: sum.splits option.splits)



text \<open>
  What the loading of the file of the last run does tolerate: when the settings are read
  and parsed, a run that finds no file goes on into the loop over the feeds with an empty
  \<^verbatim>\<open>last_run\<close>, and a run that finds text that is not JSON does the same after it has
  logged a warning.
\<close>

lemma missing_or_corrupt_last_run_file:
  assumes "read_file env settings_file = Some (JsonText settings)"
      and "parse_settings env settings (emit (Log Debug ''Starting download_new... '' []) st)
             = (Inr (start_time, feeds), st1)"
  shows "(wm_file st = None \<longrightarrow>
            download_new env settings_file st = download_new_loop env start_time feeds (PDict []) st1) \<and>
         (wm_file st = Some Garbage \<longrightarrow>
            download_new env settings_file st =
              download_new_loop env start_time feeds (PDict [])
                (emit (Log Warning ''Ignoring .newsfeed_media_dl.json due to parsing error'' []) st1))"
proof -
  from parse_settings_frame [OF assms(2)] have w: "wm_file st1 = wm_file st" by simp
  show ?thesis
    using assms w
    by (simp add: download_new_def download_new_setup_def Let_def load_last_run_def)
qed

lemma missing_or_corrupt_last_run_file_example:
  "download_new env0 ''one.json'' st0 =
     (Inr (),
      \<lparr>wm_file = Some (JsonText (PDict [(PStr ''http://example.org/feed'', PStr ''2024-01-10T10:00:00'')])),
       trace = [Log Debug ''Starting download_new... '' [], Chdir (PStr ''/media''),
         Log Debug ''Parsing feed: %s'' [PStr ''http://example.org/feed''],
         Extract (PStr ''http://example.org/feed'') 63839836800,
         Log Debug ''Found url: %s'' [PStr ''http://example.org/a.mp4''],
         Exec (PStr ''wget'') ''http://example.org/a.mp4'',
         Log Debug ''Found url: %s'' [PStr ''http://example.org/b.mp4''],
         Exec (PStr ''wget'') ''http://example.org/b.mp4'',
         Log Error ''Download failed: %s'' [PStr ''http://example.org/b.mp4''],
         WriteFile (PDict [(PStr ''http://example.org/feed'', PStr ''2024-01-10T10:00:00'')])]\<rparr>) \<and>
   download_new env0 ''one.json'' (st0\<lparr>wm_file := Some Garbage\<rparr>) =
     (Inr (),
      \<lparr>wm_file = Some (JsonText (PDict [(PStr ''http://example.org/feed'', PStr ''2024-01-10T10:00:00'')])),
       trace = [Log Debug ''Starting download_new... '' [], Chdir (PStr ''/media''),
         Log Warning ''Ignoring .newsfeed_media_dl.json due to parsing error'' [],
         Log Debug ''Parsing feed: %s'' [PStr ''http://example.org/feed''],
         Extract (PStr ''http://example.org/feed'') 63839836800,
         Log Debug ''Found url: %s'' [PStr ''http://example.org/a.mp4''],
         Exec (PStr ''wget'') ''http://example.org/a.mp4'',
         Log Debug ''Found url: %s'' [PStr ''http://example.org/b.mp4''],
         Exec (PStr ''wget'') ''http://example.org/b.mp4'',
         Log Error ''Download failed: %s'' [PStr ''http://example.org/b.mp4''],
         WriteFile (PDict [(PStr ''http://example.org/feed'', PStr ''2024-01-10T10:00:00'')])]\<rparr>)"
proof -
  let ?S = "settings_of (PInt 7) [feed_ok]"
  let ?g = "st0\<lparr>wm_file := Some Garbage\<rparr>"
  let ?n1 = "\<lparr>wm_file = None,
      trace = [Log Debug ''Starting download_new... '' [], Chdir (PStr ''/media'')]\<rparr>"
  let ?g1 = "\<lparr>wm_file = Some Garbage,
      trace = [Log Debug ''Starting download_new... '' [], Chdir (PStr ''/media'')]\<rparr>"
  have r: "read_file env0 ''one.json'' = Some (JsonText ?S)"
    by (simp add: env0_def)
  have pn: "parse_settings env0 ?S (emit (Log Debug ''Starting download_new... '' []) st0)
      = (Inr (63839836800, PList [feed_ok]), ?n1)"
    by code_simp
  have pg: "parse_settings env0 ?S (emit (Log Debug ''Starting download_new... '' []) ?g)
      = (Inr (63839836800, PList [feed_ok]), ?g1)"
    by code_simp
  have wn: "wm_file st0 = None" by (simp add: st0_def)
  have wg: "wm_file ?g = Some Garbage" by simp
  from missing_or_corrupt_last_run_file [OF r pn] wn
  have n: "download_new env0 ''one.json'' st0 =
      download_new_loop env0 63839836800 (PList [feed_ok]) (PDict []) ?n1"
    by simp
  from missing_or_corrupt_last_run_file [OF r pg] wg
  have g: "download_new env0 ''one.json'' ?g =
      download_new_loop env0 63839836800 (PList [feed_ok]) (PDict [])
        (emit (Log Warning ''Ignoring .newsfeed_media_dl.json due to parsing error'' []) ?g1)"
    by simp
  show ?thesis
    unfolding n g by code_simp
qed

text \<open>
  C9: a file of the last run that is there but holds bytes that do not decode is not
  tolerated: \<^verbatim>\<open>read\<close> raises \<^verbatim>\<open>UnicodeDecodeError\<close> in the \<^verbatim>\<open>try\<close> that catches
  \<^verbatim>\<open>IOError\<close> only, no warning is logged and the run ends before the first feed.
\<close>

theorem download_new_undecodable_last_run_file:
  "read_file env0 ''one.json'' = Some (JsonText (settings_of (PInt 7) [feed_ok])) \<and>
   download_new env0 ''one.json'' (st0\<lparr>wm_file := Some Undecodable\<rparr>) =
     (Inl UnicodeDecodeError,
      \<lparr>wm_file = Some Undecodable,
       trace = [Log Debug ''Starting download_new... '' [], Chdir (PStr ''/media'')]\<rparr>)"
  by code_simp

text \<open>
  What the settings phase does raise as \<^verbatim>\<open>InvalidInputDataException\<close>, and the one
  value of \<^verbatim>\<open>maxage\<close> that escapes it: a string that \<^verbatim>\<open>int\<close> rejects.
\<close>

lemma parse_settings_errors:
  shows "getitem settings (PStr ''directory'') = Inl KeyError \<Longrightarrow>
           parse_settings env settings st =
             (Inl (InvalidInputDataException ''No directory given in settings file'' []), st)"
    and "getitem settings (PStr ''directory'') = Inr directory \<Longrightarrow>
         chdir env directory = ChdirOSError \<Longrightarrow>
           parse_settings env settings st =
             (Inl (InvalidInputDataException ''Directory given in settings file does not exist'' []), st)"
    and "getitem settings (PStr ''directory'') = Inr directory \<Longrightarrow>
         chdir env directory = ChdirOk \<Longrightarrow>
         start_time_of env settings = Inl x \<Longrightarrow>
           parse_settings env settings st = (Inl x, emit (Chdir directory) st)"
    and "getitem settings (PStr ''directory'') = Inr directory \<Longrightarrow>
         chdir env directory = ChdirOk \<Longrightarrow>
         start_time_of env settings = Inr start_time \<Longrightarrow>
         getitem settings (PStr ''feeds'') = Inl KeyError \<Longrightarrow>
           parse_settings env settings st =
             (Inl (InvalidInputDataException ''No feeds given in settings file'' []),
              emit (Chdir directory) st)"
  by (simp_all add: parse_settings_def reraise_def Let_def)

lemma start_time_of_errors:
  shows "getitem settings (PStr ''maxage'') = Inl KeyError \<Longrightarrow>
           start_time_of env settings =
             Inl (InvalidInputDataException ''No time frame given in settings file'' [])"
    and "getitem settings (PStr ''maxage'') = Inr v \<Longrightarrow>
         v = PNone \<or> (\<exists>xs. v = PList xs) \<or> (\<exists>kvs. v = PDict kvs) \<Longrightarrow>
           start_time_of env settings =
             Inl (InvalidInputDataException ''Invalid time frame given in settings file'' [])"
    and "getitem settings (PStr ''maxage'') = Inr (PStr s) \<Longrightarrow> int_str env s = None \<Longrightarrow>
           start_time_of env settings = Inl ValueError"
  by (auto simp: start_time_of_def reraise_def)

text \<open>
  C5: with \<^verbatim>\<open>"maxage": "abc"\<close> the run ends before any feed is read, but the exception
  is the \<^verbatim>\<open>ValueError\<close> of \<^verbatim>\<open>int\<close>, which neither \<^verbatim>\<open>except\<close> clause names.
\<close>

theorem download_new_maxage_not_a_number:
  "read_file env0 ''abc.json'' = Some (JsonText (settings_of (PStr ''abc'') [feed_ok])) \<and>
   download_new env0 ''abc.json'' st0 =
     (Inl ValueError,
      \<lparr>wm_file = None,
       trace = [Log Debug ''Starting download_new... '' [], Chdir (PStr ''/media'')]\<rparr>)"
  by code_simp




text \<open>
  C10, amended: when the loop reaches a feed whose fields are valid and the value that
  \<^verbatim>\<open>last_run\<close> holds for its URL is a string that \<^verbatim>\<open>datetime.strptime\<close> rejects,
  \<^verbatim>\<open>download_new\<close> raises \<^verbatim>\<open>ValueError\<close>: it neither goes on nor raises
  \<^verbatim>\<open>InvalidInputDataException\<close>, the feed is not fetched and nothing is written. The
  value is the one from the file when the file is JSON and no feed in front has the same
  key.
\<close>

theorem malformed_watermark_raises_ValueError:
  assumes "download_new_setup env settings_file st = (Inr (start_time, feeds, last_run), st1)"
      and "py_iter feeds = Inr (before @ feed # after)"
      and "download_new_feeds env start_time before last_run st1 = (Inr last_run', st2)"
      and "feed_fields env feed = Inr (url, regex, downloader)"
      and "downloader \<in> set SUPPORTED_DOWNLOADERS"
      and "getitem last_run' url = Inr (PStr s)"
      and "strptime env s = None"
  shows "download_new env settings_file st =
           (Inl ValueError, emit (Log Debug ''Parsing feed: %s'' [url]) st2) \<and>
         (\<forall>v. wm_file st = Some (JsonText v) \<longrightarrow> last_run = v) \<and>
         (before = [] \<longrightarrow> last_run' = last_run)"
proof -
  have f: "download_new_feed env start_time feed last_run' st2 =
      (Inl ValueError, emit (Log Debug ''Parsing feed: %s'' [url]) st2)"
    using assms(4,5,6,7)
    by (simp add: download_new_feed_def Let_def newer_than_of_def py_strptime_def)
  from download_new_setup_Inr [OF assms(1)] obtain settings st0 where
    p: "parse_settings env settings (emit (Log Debug ''Starting download_new... '' []) st)
       = (Inr (start_time, feeds), st0)" and
    l: "load_last_run st0 = (Inr last_run, st1)"
    by blast
  from parse_settings_frame [OF p] have "wm_file st0 = wm_file st" by simp
  with l have v: "\<forall>v. wm_file st = Some (JsonText v) \<longrightarrow> last_run = v"
    by (auto simp: load_last_run_def split: option.splits contents.splits)
  from assms(3) have "before = [] \<longrightarrow> last_run' = last_run" by auto
  with download_new_stops_at [OF assms(1,2,3) f] v show ?thesis by blast
qed

theorem malformed_watermark_raises_ValueError_witness:
  "download_new env0 ''one.json''
     (st0\<lparr>wm_file := Some (JsonText (PDict [(PStr ''http://example.org/feed'', PStr ''yesterday'')]))\<rparr>) =
     (Inl ValueError,
      \<lparr>wm_file = Some (JsonText (PDict [(PStr ''http://example.org/feed'', PStr ''yesterday'')])),
       trace = [Log Debug ''Starting download_new... '' [], Chdir (PStr ''/media''),
         Log Debug ''Parsing feed: %s'' [PStr ''http://example.org/feed'']]\<rparr>)"
proof -
  let ?lr = "PDict [(PStr ''http://example.org/feed'', PStr ''yesterday'')]"
  let ?st = "st0\<lparr>wm_file := Some (JsonText ?lr)\<rparr>"
  let ?s1 = "\<lparr>wm_file = Some (JsonText ?lr),
      trace = [Log Debug ''Starting download_new... '' [], Chdir (PStr ''/media'')]\<rparr>"
  have a1: "download_new_setup env0 ''one.json'' ?st = (Inr (63839836800, PList [feed_ok], ?lr), ?s1)"
    by code_simp
  have a2: "py_iter (PList [feed_ok]) = Inr ([] @ feed_ok # [])" by simp
  have a3: "download_new_feeds env0 63839836800 [] ?lr ?s1 = (Inr ?lr, ?s1)" by simp
  have a4: "feed_fields env0 feed_ok =
      Inr (PStr ''http://example.org/feed'', starts_with ''Breaking'', PStr ''wget'')"
    by (simp add: feed_fields_def feed_ok_def reraise_def py_re_compile_def env0_def)
  have a5: "PStr ''wget'' \<in> set SUPPORTED_DOWNLOADERS"
    by (simp add: SUPPORTED_DOWNLOADERS_def)
  have a6: "getitem ?lr (PStr ''http://example.org/feed'') = Inr (PStr ''yesterday'')" by simp
  have a7: "strptime env0 ''yesterday'' = None" by (simp add: env0_def)
  from malformed_watermark_raises_ValueError [OF a1 a2 a3 a4 a5 a6 a7]
  show ?thesis by (simp add: emit_def)
qed

text \<open>
  C10 as stated fails: \<^verbatim>\<open>2024-1-9T12:0:0\<close> is not in the format
  \<^verbatim>\<open>YYYY-MM-DDTHH:MM:SS\<close>, yet \<^verbatim>\<open>datetime.strptime\<close> reads it as 2024-01-09T12:00:00
  and the run goes on to its end.
\<close>

theorem malformed_watermark_counterexample:
  "\<not> spec_iso_format ''2024-1-9T12:0:0'' \<and>
   strptime env0 ''2024-1-9T12:0:0'' = Some 63840398400 \<and>
   download_new env0 ''one.json''
     (st0\<lparr>wm_file := Some (JsonText (PDict [(PStr ''http://example.org/feed'', PStr ''2024-1-9T12:0:0'')]))\<rparr>) =
     (Inr (),
      \<lparr>wm_file = Some (JsonText (PDict [(PStr ''http://example.org/feed'', PStr ''2024-01-10T10:00:00'')])),
       trace = [Log Debug ''Starting download_new... '' [], Chdir (PStr ''/media''),
         Log Debug ''Parsing feed: %s'' [PStr ''http://example.org/feed''],
         Extract (PStr ''http://example.org/feed'') 63840398400,
         Log Debug ''Found url: %s'' [PStr ''http://example.org/b.mp4''],
         Exec (PStr ''wget'') ''http://example.org/b.mp4'',
         Log Error ''Download failed: %s'' [PStr ''http://example.org/b.mp4''],
         WriteFile (PDict [(PStr ''http://example.org/feed'', PStr ''2024-01-10T10:00:00'')])]\<rparr>)"
  by code_simp

lemma download_frame:
  "download env vurl d st = (r, st') \<Longrightarrow>
   wm_file st' = wm_file st \<and>
   (\<exists>evs. trace st' = trace st @ evs \<and>
      (\<forall>ev\<in>set evs. (\<exists>l m a. ev = Log l m a) \<or> (\<exists>d u. ev = Exec d u)))"
  by (auto simp: download_def Let_def split: pyval.splits proc.splits if_splits)

lemma download_all_frame:
  "download_all env vurls d st = (r, st') \<Longrightarrow>
   wm_file st' = wm_file st \<and>
   (\<exists>evs. trace st' = trace st @ evs \<and>
      (\<forall>ev\<in>set evs. (\<exists>l m a. ev = Log l m a) \<or> (\<exists>d u. ev = Exec d u)))"
proof (induction vurls arbitrary: st)
  case Nil
  then show ?case by simp
next
  case (Cons u us)
  let ?s = "emit (Log Debug ''Found url: %s'' [PStr u]) st"
  obtain r1 st1 where d: "download env u d ?s = (r1, st1)" by force
  from download_frame [OF d] obtain evs1 where
    w1: "wm_file st1 = wm_file st" and t1: "trace st1 = trace st @ Log Debug ''Found url: %s'' [PStr u] # evs1"
    and e1: "\<forall>ev\<in>set evs1. (\<exists>l m a. ev = Log l m a) \<or> (\<exists>d u. ev = Exec d u)"
    by auto
  show ?case
  proof (cases r1)
    case (Inl x)
    with Cons.prems d have "st' = st1" by simp
    with w1 t1 e1 show ?thesis by auto
  next
    case (Inr y)
    with Cons.prems d have "download_all env us d st1 = (r, st')" by simp
    from Cons.IH [OF this] obtain evs2 where
      "wm_file st' = wm_file st1" "trace st' = trace st1 @ evs2"
      "\<forall>ev\<in>set evs2. (\<exists>l m a. ev = Log l m a) \<or> (\<exists>d u. ev = Exec d u)"
      by blast
    with w1 t1 e1 have "wm_file st' = wm_file st \<and>
      trace st' = trace st @ (Log Debug ''Found url: %s'' [PStr u] # evs1 @ evs2) \<and>
      (\<forall>ev\<in>set (Log Debug ''Found url: %s'' [PStr u] # evs1 @ evs2).
         (\<exists>l m a. ev = Log l m a) \<or> (\<exists>d u. ev = Exec d u))"
      by auto
    then show ?thesis by blast
  qed
qed

lemma extract_items_frame:
  "extract_items env url regex newer_than st = (r, st') \<Longrightarrow> st' = emit (Extract url newer_than) st"
  by (auto simp: extract_items_def Let_def split: option.splits sum.splits)

lemma download_new_feed_Inr:
  assumes "download_new_feed env start_time feed last_run st = (Inr last_run', st')"
  shows "\<exists>url regex d c es vurls newest st3.
     feed_fields env feed = Inr (url, regex, d) \<and> d \<in> set SUPPORTED_DOWNLOADERS \<and>
     newer_than_of env start_time last_run url = Inr c \<and>
     feedparser_parse env url = Some es \<and> vurls_of env regex c es = Inr vurls \<and>
     newest_of env es = Inr newest \<and>
     download_all env vurls d (emit (Extract url c) (emit (Log Debug ''Parsing feed: %s'' [url]) st))
       = (Inr (), st3) \<and>
     setitem last_run url (PStr (isoformat env newest)) = Inr last_run' \<and>
     st' = write_last_run last_run' st3"
proof -
  from assms obtain url regex d where
    f: "feed_fields env feed = Inr (url, regex, d)"
    by (cases "feed_fields env feed") (auto simp: download_new_feed_def)
  let ?s1 = "emit (Log Debug ''Parsing feed: %s'' [url]) st"
  from assms f have s: "d \<in> set SUPPORTED_DOWNLOADERS"
    by (auto simp: download_new_feed_def Let_def split: if_splits)
  from assms f s obtain c where c: "newer_than_of env start_time last_run url = Inr c"
    by (cases "newer_than_of env start_time last_run url") (auto simp: download_new_feed_def Let_def)
  obtain r2 st2 where e: "extract_items env url regex c ?s1 = (r2, st2)" by force
  from assms f s c e obtain vurls newest where r2: "r2 = Inr (vurls, newest)"
    by (cases r2) (auto simp: download_new_feed_def Let_def)
  from extract_items_Inr [OF e [unfolded r2]] obtain es where
    es: "feedparser_parse env url = Some es" "vurls_of env regex c es = Inr vurls"
      "newest_of env es = Inr newest" "st2 = emit (Extract url c) ?s1"
    by blast
  obtain r3 st3 where a: "download_all env vurls d st2 = (r3, st3)" by force
  from assms f s c e r2 a have r3: "r3 = Inr ()"
    by (cases r3) (auto simp: download_new_feed_def Let_def)
  from assms f s c e r2 a r3 have
    "setitem last_run url (PStr (isoformat env newest)) = Inr last_run' \<and>
     st' = write_last_run last_run' st3"
    by (cases "setitem last_run url (PStr (isoformat env newest))")
       (auto simp: download_new_feed_def Let_def)
  with f s c es a r3 show ?thesis by blast
qed

lemma download_new_feed_Inl:
  assumes "download_new_feed env start_time feed last_run st = (Inl x, st')"
  shows "wm_file st' = wm_file st \<and>
         (\<exists>evs. trace st' = trace st @ evs \<and> (\<forall>ev\<in>set evs. \<forall>v. ev \<noteq> WriteFile v))"
proof (cases "feed_fields env feed")
  case (Inl y)
  with assms show ?thesis by (simp add: download_new_feed_def)
next
  case (Inr f)
  obtain url regex d where f: "f = (url, regex, d)" by (cases f) auto
  let ?s1 = "emit (Log Debug ''Parsing feed: %s'' [url]) st"
  show ?thesis
  proof (cases "d \<in> set SUPPORTED_DOWNLOADERS")
    case False
    with assms Inr f show ?thesis by (auto simp: download_new_feed_def Let_def)
  next
    case True
    show ?thesis
    proof (cases "newer_than_of env start_time last_run url")
      case (Inl y)
      with assms Inr f True show ?thesis by (auto simp: download_new_feed_def Let_def)
    next
      case c: (Inr c)
      obtain r2 st2 where e: "extract_items env url regex c ?s1 = (r2, st2)" by force
      from extract_items_frame [OF e] have st2: "st2 = emit (Extract url c) ?s1" .
      show ?thesis
      proof (cases r2)
        case (Inl y)
        with assms Inr f True c e st2 show ?thesis by (auto simp: download_new_feed_def Let_def)
      next
        case r2: (Inr vn)
        obtain vurls newest where vn: "vn = (vurls, newest)" by (cases vn) auto
        obtain r3 st3 where a: "download_all env vurls d st2 = (r3, st3)" by force
        from download_all_frame [OF a] obtain evs where
          w3: "wm_file st3 = wm_file st2" and t3: "trace st3 = trace st2 @ evs" and
          e3: "\<forall>ev\<in>set evs. (\<exists>l m a. ev = Log l m a) \<or> (\<exists>d u. ev = Exec d u)"
          by blast
        from assms Inr f True c e r2 vn a have "st' = st3"
          by (cases r3; cases "setitem last_run url (PStr (isoformat env newest))")
             (auto simp: download_new_feed_def Let_def)
        with w3 t3 e3 st2 have "wm_file st' = wm_file st \<and>
          trace st' = trace st @ (Log Debug ''Parsing feed: %s'' [url] # Extract url c # evs) \<and>
          (\<forall>ev\<in>set (Log Debug ''Parsing feed: %s'' [url] # Extract url c # evs). \<forall>v. ev \<noteq> WriteFile v)"
          by auto
        then show ?thesis by blast
      qed
    qed
  qed
qed

lemma key_eq_refl: "hashable k \<Longrightarrow> key_eq k k"
  by (cases k) auto

lemma key_eq_PStr [simp]: "key_eq k (PStr s) \<longleftrightarrow> k = PStr s"
  by (cases k) auto

lemma dict_get_set_same: "key_eq k k \<Longrightarrow> dict_get (dict_set kvs k v) k = Some v"
  by (induction kvs) auto

lemma dict_get_set_other:
  "\<not> key_eq k (PStr s) \<Longrightarrow> dict_get (dict_set kvs k v) (PStr s) = dict_get kvs (PStr s)"
  by (induction kvs) auto

lemma norm_index_less: "norm_index n i = Inr m \<Longrightarrow> m < n"
  by (auto simp: norm_index_def Let_def split: if_splits)

lemma index_of_less: "index_of n k = Inr m \<Longrightarrow> m < n"
  by (cases k) (auto dest: norm_index_less)

lemma getitem_setitem_same:
  assumes "setitem d k v = Inr d'"
  shows "getitem d' k = Inr v"
proof (cases d)
  case (PDict kvs)
  with assms show ?thesis
    by (auto simp: dict_get_set_same key_eq_refl split: if_splits)
next
  case (PList xs)
  with assms obtain n where n: "index_of (length xs) k = Inr n" and d': "d' = PList (xs[n := v])"
    by (auto split: sum.splits)
  from index_of_less [OF n] have "xs[n := v] ! n = v" by simp
  with n d' show ?thesis by simp
qed (use assms in auto)

lemma getitem_setitem_other:
  assumes "setitem d k v = Inr d'" and "k \<noteq> PStr s"
  shows "getitem d' (PStr s) = getitem d (PStr s)"
proof (cases d)
  case (PDict kvs)
  with assms show ?thesis
    by (auto simp: dict_get_set_other split: if_splits)
next
  case (PList xs)
  with assms show ?thesis
    by (auto split: sum.splits)
qed (use assms in auto)

lemma download_new_feeds_file:
  "download_new_feeds env start_time fs last_run st = (Inr last_run', st') \<Longrightarrow>
   wm_file st = Some (JsonText last_run) \<Longrightarrow> wm_file st' = Some (JsonText last_run')"
proof (induction fs arbitrary: last_run st)
  case Nil
  then show ?case by simp
next
  case (Cons f fs)
  obtain r1 st1 where b: "download_new_feed env start_time f last_run st = (r1, st1)" by force
  with Cons.prems(1) obtain lr1 where r1: "r1 = Inr lr1" by (cases r1) auto
  from download_new_feed_Inr [OF b [unfolded r1]] have "wm_file st1 = Some (JsonText lr1)" by auto
  moreover from Cons.prems(1) b r1 have "download_new_feeds env start_time fs lr1 st1 = (Inr last_run', st')"
    by simp
  ultimately show ?case by (rule Cons.IH [rotated])
qed

lemma download_new_feeds_keeps:
  assumes "download_new_feeds env start_time fs last_run st = (Inr last_run', st')"
      and "feedparser_parse env (PStr u) = Some es" and "newest_of env es = Inr n"
      and "getitem last_run (PStr u) = Inr (PStr (isoformat env n))"
  shows "getitem last_run' (PStr u) = Inr (PStr (isoformat env n))"
  using assms(1,4)
proof (induction fs arbitrary: last_run st)
  case Nil
  then show ?case by simp
next
  case (Cons f fs)
  obtain r1 st1 where b: "download_new_feed env start_time f last_run st = (r1, st1)" by force
  with Cons.prems(1) obtain lr1 where r1: "r1 = Inr lr1" by (cases r1) auto
  from download_new_feed_Inr [OF b [unfolded r1]] obtain url es' newest where
    p: "feedparser_parse env url = Some es'" and m: "newest_of env es' = Inr newest" and
    s: "setitem last_run url (PStr (isoformat env newest)) = Inr lr1"
    by blast
  have g: "getitem lr1 (PStr u) = Inr (PStr (isoformat env n))"
  proof (cases "url = PStr u")
    case True
    with p m assms(2,3) have "newest = n" by simp
    with getitem_setitem_same [OF s] True show ?thesis by simp
  next
    case False
    from getitem_setitem_other [OF s False] Cons.prems(2) show ?thesis by simp
  qed
  from Cons.prems(1) b r1 have "download_new_feeds env start_time fs lr1 st1 = (Inr last_run', st')"
    by simp
  from Cons.IH [OF this g] show ?case .
qed

text \<open>
  C4: a feed whose processing completes leaves the file holding \<^verbatim>\<open>last_run\<close> with the
  feed's new watermark, and the write is the last effect of its processing. When feed A
  (with a string URL) completes and a later feed B raises
  \<^verbatim>\<open>InvalidInputDataException\<close>, the run ends with that exception, B writes nothing, and
  the file still holds A's watermark under A's URL.
\<close>

theorem checkpoint_survives_later_error:
  assumes "download_new_setup env settings_file st = (Inr (start_time, feeds, last_run), st1)"
      and "py_iter feeds = Inr (before @ feedA # middle @ feedB # after)"
      and "download_new_feeds env start_time before last_run st1 = (Inr last_run1, st2)"
      and "download_new_feed env start_time feedA last_run1 st2 = (Inr last_runA, stA)"
      and "getitem feedA (PStr ''url'') = Inr (PStr u)"
      and "download_new_feeds env start_time middle last_runA stA = (Inr last_runM, stM)"
      and "download_new_feed env start_time feedB last_runM stM
             = (Inl (InvalidInputDataException msg args), stB)"
  shows "download_new env settings_file st = (Inl (InvalidInputDataException msg args), stB) \<and>
         wm_file stA = Some (JsonText last_runA) \<and>
         (\<exists>evs. trace stA = evs @ [WriteFile last_runA]) \<and>
         (\<exists>es n. feedparser_parse env (PStr u) = Some es \<and> newest_of env es = Inr n \<and>
            getitem last_runA (PStr u) = Inr (PStr (isoformat env n)) \<and>
            getitem last_runM (PStr u) = Inr (PStr (isoformat env n))) \<and>
         wm_file stB = Some (JsonText last_runM) \<and>
         wm_file stB = wm_file stM"
proof -
  from download_new_feed_Inr [OF assms(4)] obtain url regex d es n st3 where
    f: "feed_fields env feedA = Inr (url, regex, d)" and
    p: "feedparser_parse env url = Some es" and m: "newest_of env es = Inr n" and
    s: "setitem last_run1 url (PStr (isoformat env n)) = Inr last_runA" and
    w: "stA = write_last_run last_runA st3"
    by blast
  from feed_fields_Inr [OF f] assms(5) have url: "url = PStr u" by simp
  from w have wA: "wm_file stA = Some (JsonText last_runA)" by simp
  from w have tA: "\<exists>evs. trace stA = evs @ [WriteFile last_runA]" by simp
  from getitem_setitem_same [OF s] url
  have gA: "getitem last_runA (PStr u) = Inr (PStr (isoformat env n))" by simp
  from download_new_feeds_keeps [OF assms(6) p [unfolded url] m gA]
  have gM: "getitem last_runM (PStr u) = Inr (PStr (isoformat env n))" .
  from download_new_feeds_file [OF assms(6) wA]
  have wM: "wm_file stM = Some (JsonText last_runM)" .
  from download_new_feed_Inl [OF assms(7)] have wB: "wm_file stB = wm_file stM" by simp
  have l: "download_new_feeds env start_time (before @ feedA # middle) last_run st1 = (Inr last_runM, stM)"
    using assms(3,4,6) by (simp add: download_new_feeds_append)
  have i: "py_iter feeds = Inr ((before @ feedA # middle) @ feedB # after)"
    using assms(2) by simp
  from download_new_stops_at [OF assms(1) i l assms(7)]
  have "download_new env settings_file st = (Inl (InvalidInputDataException msg args), stB)" .
  with wA tA p m url gA gM wM wB show ?thesis by auto
qed

theorem checkpoint_survives_later_error_witness:
  "download_new env0 ''two.json'' st0 =
     (Inl (InvalidInputDataException ''Unsupported downloader: %s'' [PStr ''curl'']),
      \<lparr>wm_file = Some (JsonText (PDict [(PStr ''http://example.org/feed'', PStr ''2024-01-10T10:00:00'')])),
       trace = [Log Debug ''Starting download_new... '' [], Chdir (PStr ''/media''),
         Log Debug ''Parsing feed: %s'' [PStr ''http://example.org/feed''],
         Extract (PStr ''http://example.org/feed'') 63839836800,
         Log Debug ''Found url: %s'' [PStr ''http://example.org/a.mp4''],
         Exec (PStr ''wget'') ''http://example.org/a.mp4'',
         Log Debug ''Found url: %s'' [PStr ''http://example.org/b.mp4''],
         Exec (PStr ''wget'') ''http://example.org/b.mp4'',
         Log Error ''Download failed: %s'' [PStr ''http://example.org/b.mp4''],
         WriteFile (PDict [(PStr ''http://example.org/feed'', PStr ''2024-01-10T10:00:00'')]),
         Log Debug ''Parsing feed: %s'' [PStr ''http://example.org/other'']]\<rparr>) \<and>
   (\<exists>es n. feedparser_parse env0 (PStr ''http://example.org/feed'') = Some es \<and> newest_of env0 es = Inr n \<and>
      getitem (PDict [(PStr ''http://example.org/feed'', PStr ''2024-01-10T10:00:00'')])
        (PStr ''http://example.org/feed'') = Inr (PStr (isoformat env0 n)))"
proof -
  let ?s1 = "\<lparr>wm_file = None,
      trace = [Log Debug ''Starting download_new... '' [], Chdir (PStr ''/media'')]\<rparr>"
  let ?lr = "PDict [(PStr ''http://example.org/feed'', PStr ''2024-01-10T10:00:00'')]"
  let ?sA = "\<lparr>wm_file = Some (JsonText ?lr),
       trace = [Log Debug ''Starting download_new... '' [], Chdir (PStr ''/media''),
         Log Debug ''Parsing feed: %s'' [PStr ''http://example.org/feed''],
         Extract (PStr ''http://example.org/feed'') 63839836800,
         Log Debug ''Found url: %s'' [PStr ''http://example.org/a.mp4''],
         Exec (PStr ''wget'') ''http://example.org/a.mp4'',
         Log Debug ''Found url: %s'' [PStr ''http://example.org/b.mp4''],
         Exec (PStr ''wget'') ''http://example.org/b.mp4'',
         Log Error ''Download failed: %s'' [PStr ''http://example.org/b.mp4''],
         WriteFile ?lr]\<rparr>"
  let ?sB = "\<lparr>wm_file = Some (JsonText ?lr),
       trace = [Log Debug ''Starting download_new... '' [], Chdir (PStr ''/media''),
         Log Debug ''Parsing feed: %s'' [PStr ''http://example.org/feed''],
         Extract (PStr ''http://example.org/feed'') 63839836800,
         Log Debug ''Found url: %s'' [PStr ''http://example.org/a.mp4''],
         Exec (PStr ''wget'') ''http://example.org/a.mp4'',
         Log Debug ''Found url: %s'' [PStr ''http://example.org/b.mp4''],
         Exec (PStr ''wget'') ''http://example.org/b.mp4'',
         Log Error ''Download failed: %s'' [PStr ''http://example.org/b.mp4''],
         WriteFile ?lr,
         Log Debug ''Parsing feed: %s'' [PStr ''http://example.org/other'']]\<rparr>"
  have a1: "download_new_setup env0 ''two.json'' st0 =
      (Inr (63839836800, PList [feed_ok, feed_curl], PDict []), ?s1)"
    by code_simp
  have a2: "py_iter (PList [feed_ok, feed_curl]) = Inr ([] @ feed_ok # [] @ feed_curl # [])"
    by simp
  have a3: "download_new_feeds env0 63839836800 [] (PDict []) ?s1 = (Inr (PDict []), ?s1)"
    by simp
  have a4: "download_new_feed env0 63839836800 feed_ok (PDict []) ?s1 = (Inr ?lr, ?sA)"
    by code_simp
  have a5: "getitem feed_ok (PStr ''url'') = Inr (PStr ''http://example.org/feed'')"
    by (simp add: feed_ok_def)
  have a6: "download_new_feeds env0 63839836800 [] ?lr ?sA = (Inr ?lr, ?sA)"
    by simp
  have a7: "download_new_feed env0 63839836800 feed_curl ?lr ?sA =
      (Inl (InvalidInputDataException ''Unsupported downloader: %s'' [PStr ''curl'']), ?sB)"
    by code_simp
  from checkpoint_survives_later_error [OF a1 a2 a3 a4 a5 a6 a7]
  show ?thesis by blast
qed

lemma newer_than_of_cutoff_ok:
  "newer_than_of env start_time store url = Inr c \<Longrightarrow> cutoff_ok env start_time store url c"
  by (auto simp: newer_than_of_def cutoff_ok_def py_strptime_def
           split: sum.splits pyval.splits option.splits if_splits)

lemma cutoff_ok_iff:
  "cutoff_ok env start_time store url c \<longleftrightarrow>
     (getitem store url = Inl KeyError \<and> c = start_time) \<or>
     (\<exists>s t. getitem store url = Inr (PStr s) \<and> strptime env s = Some t \<and> c = max start_time t)"
  by (auto simp: cutoff_ok_def split: sum.splits pyval.splits option.splits)

lemma store_at_append: "store_at v (xs @ ys) = store_at (store_at v xs) ys"
  by (induction v xs rule: store_at.induct) auto

lemma cutoffs_ok_append:
  "cutoffs_ok env start_time v (xs @ ys) \<longleftrightarrow>
     cutoffs_ok env start_time v xs \<and> cutoffs_ok env start_time (store_at v xs) ys"
  by (induction env start_time v xs rule: cutoffs_ok.induct) auto

lemma quiet_events:
  "\<forall>ev\<in>set evs. (\<exists>l m a. ev = Log l m a) \<or> (\<exists>d u. ev = Exec d u) \<Longrightarrow>
   cutoffs_ok env start_time v evs \<and> store_at v evs = v"
  by (induction evs) auto

lemma cutoffs_ok_at:
  "cutoffs_ok env start_time v (pre @ Extract url c # post) \<Longrightarrow>
   cutoff_ok env start_time (store_at v pre) url c"
  by (simp add: cutoffs_ok_append)

lemma download_new_feed_trace:
  assumes "download_new_feed env start_time feed last_run st = (r, st')"
  shows "\<exists>evs. trace st' = trace st @ evs \<and> cutoffs_ok env start_time last_run evs \<and>
           (\<forall>last_run'. r = Inr last_run' \<longrightarrow> store_at last_run evs = last_run')"
proof (cases "feed_fields env feed")
  case (Inl y)
  with assms have "trace st' = trace st @ [] \<and> cutoffs_ok env start_time last_run [] \<and>
      (\<forall>last_run'. r = Inr last_run' \<longrightarrow> store_at last_run [] = last_run')"
    by (auto simp: download_new_feed_def)
  then show ?thesis by blast
next
  case (Inr f)
  obtain url regex d where f: "f = (url, regex, d)" by (cases f) auto
  let ?l = "Log Debug ''Parsing feed: %s'' [url]"
  let ?s1 = "emit ?l st"
  have one: "st' = ?s1 \<Longrightarrow> (\<exists>x. r = Inl x) \<Longrightarrow> ?thesis"
  proof -
    assume "st' = ?s1" "\<exists>x. r = Inl x"
    then have "trace st' = trace st @ [?l] \<and> cutoffs_ok env start_time last_run [?l] \<and>
      (\<forall>last_run'. r = Inr last_run' \<longrightarrow> store_at last_run [?l] = last_run')"
      by auto
    then show ?thesis by blast
  qed
  show ?thesis
  proof (cases "d \<in> set SUPPORTED_DOWNLOADERS")
    case False
    with assms Inr f have "st' = ?s1 \<and> (\<exists>x. r = Inl x)" by (auto simp: download_new_feed_def Let_def)
    with one show ?thesis by blast
  next
    case True
    show ?thesis
    proof (cases "newer_than_of env start_time last_run url")
      case (Inl y)
      with assms Inr f True have "st' = ?s1 \<and> (\<exists>x. r = Inl x)"
        by (auto simp: download_new_feed_def Let_def)
      with one show ?thesis by blast
    next
      case c: (Inr c)
      note ok = newer_than_of_cutoff_ok [OF c]
      obtain r2 st2 where e: "extract_items env url regex c ?s1 = (r2, st2)" by force
      from extract_items_frame [OF e] have st2: "st2 = emit (Extract url c) ?s1" .
      show ?thesis
      proof (cases r2)
        case (Inl y)
        with assms Inr f True c e have "st' = st2 \<and> (\<exists>x. r = Inl x)"
          by (auto simp: download_new_feed_def Let_def)
        with st2 ok have "trace st' = trace st @ [?l, Extract url c] \<and>
          cutoffs_ok env start_time last_run [?l, Extract url c] \<and>
          (\<forall>last_run'. r = Inr last_run' \<longrightarrow> store_at last_run [?l, Extract url c] = last_run')"
          by auto
        then show ?thesis by blast
      next
        case r2: (Inr vn)
        obtain vurls newest where vn: "vn = (vurls, newest)" by (cases vn) auto
        obtain r3 st3 where a: "download_all env vurls d st2 = (r3, st3)" by force
        from download_all_frame [OF a] obtain evs where
          t3: "trace st3 = trace st2 @ evs" and
          e3: "\<forall>ev\<in>set evs. (\<exists>l m a. ev = Log l m a) \<or> (\<exists>d u. ev = Exec d u)"
          by blast
        note q = quiet_events [OF e3, of env start_time last_run]
        have pre: "trace st3 = trace st @ ([?l, Extract url c] @ evs)"
          using t3 st2 by simp
        have cpre: "cutoffs_ok env start_time last_run ([?l, Extract url c] @ evs)"
          using q ok by simp
        have spre: "store_at last_run ([?l, Extract url c] @ evs) = last_run"
          using q by simp
        show ?thesis
        proof (cases "\<exists>x. r = Inl x")
          case True
          with assms Inr f \<open>d \<in> set SUPPORTED_DOWNLOADERS\<close> c e r2 vn a have "st' = st3"
            by (cases r3; cases "setitem last_run url (PStr (isoformat env newest))")
               (auto simp: download_new_feed_def Let_def)
          with pre cpre True have "trace st' = trace st @ ([?l, Extract url c] @ evs) \<and>
            cutoffs_ok env start_time last_run ([?l, Extract url c] @ evs) \<and>
            (\<forall>last_run'. r = Inr last_run' \<longrightarrow> store_at last_run ([?l, Extract url c] @ evs) = last_run')"
            by auto
          then show ?thesis by blast
        next
          case False
          then obtain lr' where r: "r = Inr lr'" by (cases r) auto
          with assms Inr f \<open>d \<in> set SUPPORTED_DOWNLOADERS\<close> c e r2 vn a
          have "st' = write_last_run lr' st3"
            by (cases r3; cases "setitem last_run url (PStr (isoformat env newest))")
               (auto simp: download_new_feed_def Let_def)
          with pre have t: "trace st' = trace st @ (([?l, Extract url c] @ evs) @ [WriteFile lr'])"
            by simp
          have ck: "cutoffs_ok env start_time last_run (([?l, Extract url c] @ evs) @ [WriteFile lr'])"
            unfolding cutoffs_ok_append [of _ _ _ "[?l, Extract url c] @ evs"] using cpre by simp
          have sk: "store_at last_run (([?l, Extract url c] @ evs) @ [WriteFile lr']) = lr'"
            unfolding store_at_append [of _ "[?l, Extract url c] @ evs"] by simp
          from t ck sk r show ?thesis by blast
        qed
      qed
    qed
  qed
qed

lemma download_new_feeds_trace:
  "download_new_feeds env start_time fs last_run st = (r, st') \<Longrightarrow>
   \<exists>evs. trace st' = trace st @ evs \<and> cutoffs_ok env start_time last_run evs \<and>
     (\<forall>last_run'. r = Inr last_run' \<longrightarrow> store_at last_run evs = last_run')"
proof (induction fs arbitrary: last_run st)
  case Nil
  then have "trace st' = trace st @ [] \<and> cutoffs_ok env start_time last_run [] \<and>
     (\<forall>last_run'. r = Inr last_run' \<longrightarrow> store_at last_run [] = last_run')"
    by auto
  then show ?case by blast
next
  case (Cons f fs)
  obtain r1 st1 where b: "download_new_feed env start_time f last_run st = (r1, st1)" by force
  from download_new_feed_trace [OF b] obtain evs1 where
    t1: "trace st1 = trace st @ evs1" and c1: "cutoffs_ok env start_time last_run evs1" and
    s1: "\<forall>last_run'. r1 = Inr last_run' \<longrightarrow> store_at last_run evs1 = last_run'"
    by blast
  show ?case
  proof (cases r1)
    case (Inl x)
    with Cons.prems b have "r = Inl x" "st' = st1" by auto
    with t1 c1 show ?thesis by auto
  next
    case (Inr lr1)
    with Cons.prems b have "download_new_feeds env start_time fs lr1 st1 = (r, st')" by simp
    from Cons.IH [OF this] obtain evs2 where
      t2: "trace st' = trace st1 @ evs2" and c2: "cutoffs_ok env start_time lr1 evs2" and
      s2: "\<forall>last_run'. r = Inr last_run' \<longrightarrow> store_at lr1 evs2 = last_run'"
      by blast
    from s1 Inr have s: "store_at last_run evs1 = lr1" by simp
    have "trace st' = trace st @ (evs1 @ evs2)" using t1 t2 by simp
    moreover have "cutoffs_ok env start_time last_run (evs1 @ evs2)"
      using c1 c2 s by (simp add: cutoffs_ok_append)
    moreover have "\<forall>last_run'. r = Inr last_run' \<longrightarrow> store_at last_run (evs1 @ evs2) = last_run'"
      using s2 s by (simp add: store_at_append)
    ultimately show ?thesis by blast
  qed
qed

lemma start_time_of_Inr:
  "start_time_of env settings = Inr start_time \<Longrightarrow>
   \<exists>m maxage. getitem settings (PStr ''maxage'') = Inr m \<and> py_int env m = Inr maxage \<and>
     start_time = midnight (now env) - 86400 * maxage"
  by (auto simp: start_time_of_def reraise_def timedelta_days_def datetime_sub_def Let_def
           split: sum.splits option.splits if_splits)

lemma parse_settings_Inr:
  "parse_settings env settings st = (Inr (start_time, feeds), st') \<Longrightarrow>
   start_time_of env settings = Inr start_time"
  by (auto simp: parse_settings_def Let_def split: sum.splits chdir_result.splits)

text \<open>
  C3: in a run whose settings are read, the start of the time frame is midnight of the
  current day minus \<^verbatim>\<open>maxage\<close> days; it is computed in the setup, before the loop, and is
  the same for all feeds. Every call of \<^verbatim>\<open>extract_items\<close> in the run gets as cutoff this
  start when the store of that moment (the file as loaded, or as last written in the run)
  has no entry for the feed's URL, and the later of this start and the stored time when it
  has one.
\<close>

theorem cutoff_of_every_feed:
  assumes "download_new_setup env settings_file st = (Inr (start_time, feeds, last_run), st1)"
      and "download_new env settings_file st = (r, st')"
  shows "(\<exists>settings m maxage.
            read_file env settings_file = Some (JsonText settings) \<and>
            getitem settings (PStr ''maxage'') = Inr m \<and> py_int env m = Inr maxage \<and>
            start_time = midnight (now env) - 86400 * maxage) \<and>
         (\<exists>evs. trace st' = trace st1 @ evs \<and>
            (\<forall>pre url c post. evs = pre @ Extract url c # post \<longrightarrow>
               (getitem (store_at last_run pre) url = Inl KeyError \<and> c = start_time) \<or>
               (\<exists>s t. getitem (store_at last_run pre) url = Inr (PStr s) \<and>
                      strptime env s = Some t \<and> c = max start_time t)))"
proof -
  from download_new_setup_Inr [OF assms(1)] obtain settings st0 where
    rd: "read_file env settings_file = Some (JsonText settings)" and
    ps: "parse_settings env settings (emit (Log Debug ''Starting download_new... '' []) st)
       = (Inr (start_time, feeds), st0)"
    by blast
  from start_time_of_Inr [OF parse_settings_Inr [OF ps]] rd
  have first: "\<exists>settings m maxage.
            read_file env settings_file = Some (JsonText settings) \<and>
            getitem settings (PStr ''maxage'') = Inr m \<and> py_int env m = Inr maxage \<and>
            start_time = midnight (now env) - 86400 * maxage"
    by blast
  have loop: "download_new_loop env start_time feeds last_run st1 = (r, st')"
    using assms by (simp add: download_new_def)
  have "\<exists>evs. trace st' = trace st1 @ evs \<and> cutoffs_ok env start_time last_run evs"
  proof (cases "py_iter feeds")
    case (Inl x)
    with loop have "trace st' = trace st1 @ [] \<and> cutoffs_ok env start_time last_run []"
      by (simp add: download_new_loop_def)
    then show ?thesis by blast
  next
    case (Inr fs)
    obtain r2 st2 where l: "download_new_feeds env start_time fs last_run st1 = (r2, st2)" by force
    with loop Inr have "st' = st2" by (auto simp: download_new_loop_def split: sum.splits)
    with download_new_feeds_trace [OF l] show ?thesis by blast
  qed
  then obtain evs where t: "trace st' = trace st1 @ evs" and c: "cutoffs_ok env start_time last_run evs"
    by blast
  have "\<forall>pre url c post. evs = pre @ Extract url c # post \<longrightarrow>
               (getitem (store_at last_run pre) url = Inl KeyError \<and> c = start_time) \<or>
               (\<exists>s t. getitem (store_at last_run pre) url = Inr (PStr s) \<and>
                      strptime env s = Some t \<and> c = max start_time t)"
    using c cutoffs_ok_at [of env start_time last_run] by (auto simp: cutoff_ok_iff)
  with first t show ?thesis by blast
qed

theorem cutoff_of_every_feed_witness:
  "midnight (now env0) - 86400 * 7 = 63839836800 \<and>
   download_new env0 ''both.json''
     (st0\<lparr>wm_file := Some (JsonText (PDict [(PStr ''http://example.org/feed'', PStr ''2024-01-09T12:00:00'')]))\<rparr>) =
     (Inr (),
      \<lparr>wm_file = Some (JsonText (PDict [(PStr ''http://example.org/feed'', PStr ''2024-01-10T10:00:00''),
                                       (PStr ''http://example.org/late'', PStr ''2024-01-10T10:00:00'')])),
       trace = [Log Debug ''Starting download_new... '' [], Chdir (PStr ''/media''),
         Log Debug ''Parsing feed: %s'' [PStr ''http://example.org/feed''],
         Extract (PStr ''http://example.org/feed'') 63840398400,
         Log Debug ''Found url: %s'' [PStr ''http://example.org/b.mp4''],
         Exec (PStr ''wget'') ''http://example.org/b.mp4'',
         Log Error ''Download failed: %s'' [PStr ''http://example.org/b.mp4''],
         WriteFile (PDict [(PStr ''http://example.org/feed'', PStr ''2024-01-10T10:00:00'')]),
         Log Debug ''Parsing feed: %s'' [PStr ''http://example.org/late''],
         Extract (PStr ''http://example.org/late'') 63839836800,
         Log Debug ''Found url: %s'' [PStr ''http://example.org/a.mp4''],
         Exec (PStr ''aria2c'') ''http://example.org/a.mp4'',
         WriteFile (PDict [(PStr ''http://example.org/feed'', PStr ''2024-01-10T10:00:00''),
                           (PStr ''http://example.org/late'', PStr ''2024-01-10T10:00:00'')])]\<rparr>) \<and>
   strptime env0 ''2024-01-09T12:00:00'' = Some 63840398400 \<and>
   (63840398400 :: int) = max 63839836800 63840398400"
proof -
  let ?lr0 = "PDict [(PStr ''http://example.org/feed'', PStr ''2024-01-09T12:00:00'')]"
  let ?lr1 = "PDict [(PStr ''http://example.org/feed'', PStr ''2024-01-10T10:00:00'')]"
  let ?lr2 = "PDict [(PStr ''http://example.org/feed'', PStr ''2024-01-10T10:00:00''),
                     (PStr ''http://example.org/late'', PStr ''2024-01-10T10:00:00'')]"
  let ?st = "st0\<lparr>wm_file := Some (JsonText ?lr0)\<rparr>"
  let ?s1 = "\<lparr>wm_file = Some (JsonText ?lr0),
      trace = [Log Debug ''Starting download_new... '' [], Chdir (PStr ''/media'')]\<rparr>"
  let ?pre1 = "[Log Debug ''Parsing feed: %s'' [PStr ''http://example.org/feed'']]"
  let ?post1 = "[Log Debug ''Found url: %s'' [PStr ''http://example.org/b.mp4''],
         Exec (PStr ''wget'') ''http://example.org/b.mp4'',
         Log Error ''Download failed: %s'' [PStr ''http://example.org/b.mp4''],
         WriteFile ?lr1,
         Log Debug ''Parsing feed: %s'' [PStr ''http://example.org/late''],
         Extract (PStr ''http://example.org/late'') 63839836800,
         Log Debug ''Found url: %s'' [PStr ''http://example.org/a.mp4''],
         Exec (PStr ''aria2c'') ''http://example.org/a.mp4'',
         WriteFile ?lr2]"
  let ?pre2 = "[Log Debug ''Parsing feed: %s'' [PStr ''http://example.org/feed''],
         Extract (PStr ''http://example.org/feed'') 63840398400,
         Log Debug ''Found url: %s'' [PStr ''http://example.org/b.mp4''],
         Exec (PStr ''wget'') ''http://example.org/b.mp4'',
         Log Error ''Download failed: %s'' [PStr ''http://example.org/b.mp4''],
         WriteFile ?lr1,
         Log Debug ''Parsing feed: %s'' [PStr ''http://example.org/late'']]"
  let ?post2 = "[Log Debug ''Found url: %s'' [PStr ''http://example.org/a.mp4''],
         Exec (PStr ''aria2c'') ''http://example.org/a.mp4'',
         WriteFile ?lr2]"
  let ?fin = "\<lparr>wm_file = Some (JsonText ?lr2),
       trace = [Log Debug ''Starting download_new... '' [], Chdir (PStr ''/media'')]
         @ ?pre1 @ Extract (PStr ''http://example.org/feed'') 63840398400 # ?post1\<rparr>"
  have a1: "download_new_setup env0 ''both.json'' ?st =
      (Inr (63839836800, PList [feed_ok, feed_late], ?lr0), ?s1)"
    by code_simp
  have a2: "download_new env0 ''both.json'' ?st = (Inr (), ?fin)"
    by code_simp
  from cutoff_of_every_feed [OF a1 a2] obtain evs where
    m: "\<exists>settings m maxage.
            read_file env0 ''both.json'' = Some (JsonText settings) \<and>
            getitem settings (PStr ''maxage'') = Inr m \<and> py_int env0 m = Inr maxage \<and>
            63839836800 = midnight (now env0) - 86400 * maxage" and
    t: "trace ?fin = trace ?s1 @ evs" and
    c: "\<forall>pre url c post. evs = pre @ Extract url c # post \<longrightarrow>
               (getitem (store_at ?lr0 pre) url = Inl KeyError \<and> c = 63839836800) \<or>
               (\<exists>s t. getitem (store_at ?lr0 pre) url = Inr (PStr s) \<and>
                      strptime env0 s = Some t \<and> c = max 63839836800 t)"
    by blast
  from m have m7: "midnight (now env0) - 86400 * 7 = 63839836800"
    by (auto simp: env0_def settings_of_def)
  from t have e1: "evs = ?pre1 @ Extract (PStr ''http://example.org/feed'') 63840398400 # ?post1"
    by simp
  from c [rule_format, OF e1]
  have k: "strptime env0 ''2024-01-09T12:00:00'' = Some 63840398400 \<and>
     (63840398400 :: int) = max 63839836800 63840398400"
    by auto
  from m7 a2 k show ?thesis by simp
qed

end
